theory Spec2Isabelle
  imports Complex_Main
begin

section \<open>JavaScript values\<close>

text \<open>
  A JavaScript string is a sequence of UTF-16 code units; \<open>split('')\<close>, indexing and
  \<open>length\<close> all count code units. Every Devanagari character lies in the basic plane, so
  it is one code unit. The source texts that are plain ASCII are written with \<open>str\<close>.
\<close>

type_synonym jsstring = "nat list"

definition str :: "string \<Rightarrow> jsstring" where
  "str s = map of_char s"

text \<open>
  A JavaScript number is NaN, an infinity or a finite value, here a real number. The
  operators \<open>js_add\<close>, \<open>js_mul\<close> and \<open>js_div\<close> compute exactly; the rounding of a
  result to binary64 is a function of its own, \<open>f64\<close>, and the operators \<open>f64_add\<close>,
  \<open>f64_sub\<close>, \<open>f64_mul\<close> and \<open>f64_div\<close> are the exact ones followed by it. The tax
  computation and the amount in words use the binary64 operators throughout. The
  parser and the calculation functions of the invoice page use the exact ones, which
  on whole numbers below 2^53 give what binary64 gives. The sign of zero is not
  modelled.
\<close>

datatype number = NaN | PosInfinity | NegInfinity | Fin real

section \<open>Digit mapper (utils/marathiDigits)\<close>

definition MARATHI_TO_ENGLISH :: "(nat \<times> nat) list" where
  "MARATHI_TO_ENGLISH =
     [(0x966, 0x30), (0x967, 0x31), (0x968, 0x32), (0x969, 0x33), (0x96A, 0x34),
      (0x96B, 0x35), (0x96C, 0x36), (0x96D, 0x37), (0x96E, 0x38), (0x96F, 0x39)]"

definition ENGLISH_TO_MARATHI :: "(nat \<times> nat) list" where
  "ENGLISH_TO_MARATHI =
     [(0x30, 0x966), (0x31, 0x967), (0x32, 0x968), (0x33, 0x969), (0x34, 0x96A),
      (0x35, 0x96B), (0x36, 0x96C), (0x37, 0x96D), (0x38, 0x96E), (0x39, 0x96F)]"

text \<open>\<open>TABLE[char] || char\<close>: every table value is a non-empty string, hence truthy.\<close>

definition mapChar :: "(nat \<times> nat) list \<Rightarrow> nat \<Rightarrow> nat" where
  "mapChar table c = (case map_of table c of Some d \<Rightarrow> d | None \<Rightarrow> c)"

definition marathiToEnglish :: "jsstring \<Rightarrow> jsstring" where
  "marathiToEnglish text = (if text = [] then text else map (mapChar MARATHI_TO_ENGLISH) text)"

definition englishToMarathi :: "jsstring \<Rightarrow> jsstring" where
  "englishToMarathi text = (if text = [] then text else map (mapChar ENGLISH_TO_MARATHI) text)"

definition isAsciiDigit :: "nat \<Rightarrow> bool" where
  "isAsciiDigit c = (0x30 \<le> c \<and> c \<le> 0x39)"

definition isMarathiDigit :: "nat \<Rightarrow> bool" where
  "isMarathiDigit c = (0x966 \<le> c \<and> c \<le> 0x96F)"

section \<open>Number operations\<close>

text \<open>
  The operators of JavaScript on numbers in exact arithmetic, with the special values
  propagated as ECMAScript prescribes. Division and remainder only occur in the sources
  with a positive literal on the right, so the divisor is a real here.
\<close>

definition isNaN :: "number \<Rightarrow> bool" where
  "isNaN x = (x = NaN)"

text \<open>Truthiness, as in \<open>if (x)\<close> and \<open>x || 0\<close>: NaN and zero are falsy.\<close>

definition truthy :: "number \<Rightarrow> bool" where
  "truthy x = (x \<noteq> NaN \<and> x \<noteq> Fin 0)"

definition orZero :: "number \<Rightarrow> number" where
  "orZero x = (if truthy x then x else Fin 0)"

fun js_neg :: "number \<Rightarrow> number" where
  "js_neg NaN = NaN"
| "js_neg PosInfinity = NegInfinity"
| "js_neg NegInfinity = PosInfinity"
| "js_neg (Fin a) = Fin (- a)"

fun js_add :: "number \<Rightarrow> number \<Rightarrow> number" where
  "js_add (Fin a) (Fin b) = Fin (a + b)"
| "js_add NaN y = NaN"
| "js_add x NaN = NaN"
| "js_add PosInfinity NegInfinity = NaN"
| "js_add NegInfinity PosInfinity = NaN"
| "js_add PosInfinity y = PosInfinity"
| "js_add NegInfinity y = NegInfinity"
| "js_add (Fin a) y = y"

definition js_sub :: "number \<Rightarrow> number \<Rightarrow> number" where
  "js_sub x y = js_add x (js_neg y)"

fun js_mul :: "number \<Rightarrow> number \<Rightarrow> number" where
  "js_mul (Fin a) (Fin b) = Fin (a * b)"
| "js_mul NaN y = NaN"
| "js_mul x NaN = NaN"
| "js_mul (Fin a) y = (if a = 0 then NaN else if 0 < a then y else js_neg y)"
| "js_mul x (Fin b) = (if b = 0 then NaN else if 0 < b then x else js_neg x)"
| "js_mul x y = (if x = y then PosInfinity else NegInfinity)"

fun js_div :: "number \<Rightarrow> real \<Rightarrow> number" where
  "js_div (Fin a) c = Fin (a / c)"
| "js_div x c = x"

text \<open>\<open>x % c\<close> takes the sign of the dividend: the quotient is truncated towards zero.\<close>

definition trunc :: "real \<Rightarrow> int" where
  "trunc r = (if 0 \<le> r then \<lfloor>r\<rfloor> else \<lceil>r\<rceil>)"

fun js_rem :: "number \<Rightarrow> real \<Rightarrow> number" where
  "js_rem (Fin a) c = Fin (a - c * of_int (trunc (a / c)))"
| "js_rem x c = NaN"

fun js_floor :: "number \<Rightarrow> number" where
  "js_floor (Fin a) = Fin (of_int \<lfloor>a\<rfloor>)"
| "js_floor x = x"

text \<open>\<open>Math.round\<close> rounds to the nearest integer, a tie towards plus infinity.\<close>

fun js_round :: "number \<Rightarrow> number" where
  "js_round (Fin a) = Fin (of_int \<lfloor>a + 1 / 2\<rfloor>)"
| "js_round x = x"

fun js_abs :: "number \<Rightarrow> number" where
  "js_abs (Fin a) = Fin \<bar>a\<bar>"
| "js_abs NaN = NaN"
| "js_abs x = PosInfinity"

fun js_lt :: "number \<Rightarrow> number \<Rightarrow> bool" where
  "js_lt (Fin a) (Fin b) = (a < b)"
| "js_lt NaN y = False"
| "js_lt x NaN = False"
| "js_lt NegInfinity y = (y \<noteq> NegInfinity)"
| "js_lt x PosInfinity = (x \<noteq> PosInfinity)"
| "js_lt x y = False"

definition js_gt :: "number \<Rightarrow> number \<Rightarrow> bool" where
  "js_gt x y = js_lt y x"

text \<open>
  The decimal that \<open>x.toFixed(2)\<close> prints: below 10^21 in magnitude the nearest number
  with two decimals, a tie away from zero (the sign is set aside before rounding); from
  10^21 on, and for the special values, \<open>toFixed\<close> prints the number itself.
\<close>

fun toFixed2 :: "number \<Rightarrow> number" where
  "toFixed2 (Fin a) =
     (if 10 ^ 21 \<le> \<bar>a\<bar> then Fin a
      else if a < 0 then Fin (- (of_int \<lfloor>(- a) * 100 + 1 / 2\<rfloor> / 100))
      else Fin (of_int \<lfloor>a * 100 + 1 / 2\<rfloor> / 100))"
| "toFixed2 x = x"

subsection \<open>Rounding to binary64\<close>

text \<open>
  A binary64 number has 53 significant bits. A real x with \<open>2^e \<le> |x| < 2^(e+1)\<close> is
  rounded to the nearest multiple of \<open>2^(e-52)\<close>, a tie to the multiple with an even
  factor; below \<open>2^(-1022)\<close> the exponent stays at -1022 (subnormal numbers), and a
  result of magnitude \<open>2^1024\<close> or more is an infinity. The exponent is found by a walk
  from 0, upwards for \<open>|x| \<ge> 2\<close> and downwards for \<open>|x| < 1\<close>, of at most 1024 steps.
\<close>

definition pow2 :: "int \<Rightarrow> real" where
  "pow2 k = (if 0 \<le> k then 2 ^ nat k else 1 / 2 ^ nat (- k))"

fun findExponent :: "nat \<Rightarrow> int \<Rightarrow> real \<Rightarrow> int" where
  "findExponent 0 e x = e"
| "findExponent (Suc fuel) e x =
     (if pow2 (e + 1) \<le> x \<and> e < 1024 then findExponent fuel (e + 1) x
      else if x < pow2 e \<and> - 1022 < e then findExponent fuel (e - 1) x
      else e)"

definition binaryExponent :: "real \<Rightarrow> int" where
  "binaryExponent x = findExponent 2048 0 \<bar>x\<bar>"

definition roundHalfEven :: "real \<Rightarrow> int" where
  "roundHalfEven z =
     (let f = \<lfloor>z\<rfloor>
      in if z - of_int f < 1 / 2 then f
         else if 1 / 2 < z - of_int f then f + 1
         else if even f then f else f + 1)"

definition toBinary64 :: "real \<Rightarrow> number" where
  "toBinary64 x =
     (if x = 0 then Fin 0
      else
        (let q = pow2 (binaryExponent x - 52);
             y = of_int (roundHalfEven (x / q)) * q
         in if pow2 1024 \<le> \<bar>y\<bar> then (if 0 < y then PosInfinity else NegInfinity)
            else Fin y))"

fun f64 :: "number \<Rightarrow> number" where
  "f64 (Fin a) = toBinary64 a"
| "f64 x = x"

text \<open>
  The finite numbers of JavaScript are the binary64 numbers, those the rounding leaves
  as they are; a decimal literal d stands for the binary64 number \<open>toBinary64 d\<close>.
\<close>

definition isBinary64 :: "real \<Rightarrow> bool" where
  "isBinary64 x = (toBinary64 x = Fin x)"

text \<open>
  The operators as binary64 computes them: the exact result, rounded. \<open>+x.toFixed(2)\<close>
  reads the printed decimal back as a binary64 number.
\<close>

definition f64_add :: "number \<Rightarrow> number \<Rightarrow> number" where
  "f64_add x y = f64 (js_add x y)"

definition f64_sub :: "number \<Rightarrow> number \<Rightarrow> number" where
  "f64_sub x y = f64 (js_sub x y)"

definition f64_mul :: "number \<Rightarrow> number \<Rightarrow> number" where
  "f64_mul x y = f64 (js_mul x y)"

definition f64_div :: "number \<Rightarrow> real \<Rightarrow> number" where
  "f64_div x c = f64 (js_div x c)"

definition plusToFixed2 :: "number \<Rightarrow> number" where
  "plusToFixed2 x = f64 (toFixed2 x)"

section \<open>Parsing numbers\<close>

text \<open>White space of ECMAScript: what \<open>trim\<close>, \<open>parseFloat\<close> and \<open>\s\<close> skip.\<close>

definition isWhiteSpace :: "nat \<Rightarrow> bool" where
  "isWhiteSpace c =
     (c = 0x9 \<or> c = 0xA \<or> c = 0xB \<or> c = 0xC \<or> c = 0xD \<or> c = 0x20 \<or> c = 0xA0
      \<or> c = 0x1680 \<or> (0x2000 \<le> c \<and> c \<le> 0x200A) \<or> c = 0x2028 \<or> c = 0x2029
      \<or> c = 0x202F \<or> c = 0x205F \<or> c = 0x3000 \<or> c = 0xFEFF)"

definition trim :: "jsstring \<Rightarrow> jsstring" where
  "trim s = rev (dropWhile isWhiteSpace (rev (dropWhile isWhiteSpace s)))"

definition digitsValue :: "jsstring \<Rightarrow> nat" where
  "digitsValue ds = foldl (\<lambda>acc c. acc * 10 + (c - 0x30)) 0 ds"

definition pow10 :: "int \<Rightarrow> real" where
  "pow10 e = (if 0 \<le> e then 10 ^ nat e else 1 / 10 ^ nat (- e))"

text \<open>The exponent of a decimal literal: \<open>e\<close> or \<open>E\<close>, a sign if any, and digits.\<close>

definition exponentPart :: "jsstring \<Rightarrow> int" where
  "exponentPart rest =
     (case rest of
        [] \<Rightarrow> 0
      | c # r \<Rightarrow>
          if c = 0x65 \<or> c = 0x45 then
            (let negative = (r \<noteq> [] \<and> hd r = 0x2D);
                 r' = (if r \<noteq> [] \<and> (hd r = 0x2B \<or> hd r = 0x2D) then tl r else r);
                 ds = takeWhile isAsciiDigit r'
             in if ds = [] then 0
                else if negative then - int (digitsValue ds) else int (digitsValue ds))
          else 0)"

text \<open>
  \<open>parseFloat\<close>: skip leading white space, then read the longest prefix that is a
  decimal literal (a sign, \<open>Infinity\<close> or digits with an optional fraction and exponent);
  NaN when there is none. The value is exact here, where JavaScript takes the nearest
  binary64 number.
\<close>

definition parseFloat :: "jsstring \<Rightarrow> number" where
  "parseFloat input =
     (let trimmed = dropWhile isWhiteSpace input;
          negative = (trimmed \<noteq> [] \<and> hd trimmed = 0x2D);
          unsigned = (if trimmed \<noteq> [] \<and> (hd trimmed = 0x2B \<or> hd trimmed = 0x2D)
                      then tl trimmed else trimmed)
      in if take 8 unsigned = str ''Infinity''
         then (if negative then NegInfinity else PosInfinity)
         else
           (let intDigits = takeWhile isAsciiDigit unsigned;
                afterInt = dropWhile isAsciiDigit unsigned;
                hasPoint = (afterInt \<noteq> [] \<and> hd afterInt = 0x2E);
                fracDigits = (if hasPoint then takeWhile isAsciiDigit (tl afterInt) else []);
                afterFrac = (if hasPoint then dropWhile isAsciiDigit (tl afterInt) else afterInt)
            in if intDigits = [] \<and> fracDigits = [] then NaN
               else
                 (let mantissa = real (digitsValue (intDigits @ fracDigits))
                                   / 10 ^ length fracDigits;
                      scaled = mantissa * pow10 (exponentPart afterFrac)
                  in Fin (if negative then - scaled else scaled))))"

text \<open>\<open>parseMarathiNumber\<close> of utils/marathiDigits.\<close>

definition parseMarathiNumber :: "jsstring \<Rightarrow> number" where
  "parseMarathiNumber text =
     (if text = [] then Fin 0
      else
        (let englishText = marathiToEnglish (trim text);
             parsed = parseFloat (filter (\<lambda>c. c \<noteq> 0x2C) englishText)
         in if isNaN parsed then Fin 0 else parsed))"

section \<open>Amount in words (components/InvoicePreview)\<close>

text \<open>
  Reading an array at a number: an element when the number is an index of the array,
  \<open>undefined\<close> otherwise, which string concatenation prints as the text "undefined".
\<close>

definition elemAt :: "jsstring list \<Rightarrow> number \<Rightarrow> jsstring" where
  "elemAt xs n =
     (case n of
        Fin r \<Rightarrow>
          if of_int \<lfloor>r\<rfloor> = r \<and> 0 \<le> r \<and> nat \<lfloor>r\<rfloor> < length xs then xs ! nat \<lfloor>r\<rfloor>
          else str ''undefined''
      | _ \<Rightarrow> str ''undefined'')"

text \<open>
  The arrays \<open>a\<close> and \<open>b\<close> of \<open>numberToWords\<close>, the words of a number under 100
  and the words of a number; the divisions are binary64 operations, the remainder is
  exact in binary64.
\<close>

definition numberToWords_a :: "jsstring list" where
  "numberToWords_a =
     map str ['''', ''One'', ''Two'', ''Three'', ''Four'', ''Five'', ''Six'', ''Seven'',
       ''Eight'', ''Nine'', ''Ten'', ''Eleven'', ''Twelve'', ''Thirteen'', ''Fourteen'',
       ''Fifteen'', ''Sixteen'', ''Seventeen'', ''Eighteen'', ''Nineteen'']"

definition numberToWords_b :: "jsstring list" where
  "numberToWords_b =
     map str ['''', '''', ''Twenty'', ''Thirty'', ''Forty'', ''Fifty'', ''Sixty'', ''Seventy'',
       ''Eighty'', ''Ninety'']"

definition inWords :: "number \<Rightarrow> jsstring" where
  "inWords n =
     (if js_gt n (Fin 19) then
        elemAt numberToWords_b (js_floor (f64_div n 10))
          @ (if truthy (js_rem n 10) then str '' '' @ elemAt numberToWords_a (js_rem n 10) else [])
      else if js_gt n (Fin 0) then elemAt numberToWords_a n
      else [])"

definition numberToWords :: "number \<Rightarrow> jsstring" where
  "numberToWords num =
     (if isNaN num then []
      else if num = Fin 0 then str ''Zero''
      else if js_gt num (Fin 999999999) then str ''Amount too large''
      else
        (let crore = js_floor (f64_div num 10000000);
             lakh = js_floor (js_rem (f64_div num 100000) 100);
             thousand = js_floor (js_rem (f64_div num 1000) 100);
             hundred = js_floor (js_rem (f64_div num 100) 10);
             rest = js_floor (js_rem num 100);
             result = [];
             result = (if truthy crore then result @ inWords crore @ str '' Crore '' else result);
             result = (if truthy lakh then result @ inWords lakh @ str '' Lakh '' else result);
             result = (if truthy thousand then result @ inWords thousand @ str '' Thousand ''
                       else result);
             result = (if truthy hundred
                       then result @ elemAt numberToWords_a hundred @ str '' Hundred ''
                       else result);
             result = (if truthy rest
                       then (if result \<noteq> [] then result @ str ''and '' else result)
                              @ inWords rest @ str '' ''
                       else result)
         in trim result))"

text \<open>
  The two components \<open>amountToWordsWithPaise\<close> splits its argument into; the
  difference and the product are binary64 operations.
\<close>

definition amountRupees :: "number \<Rightarrow> number" where
  "amountRupees amount = js_floor amount"

definition amountPaise :: "number \<Rightarrow> number" where
  "amountPaise amount = js_round (f64_mul (f64_sub amount (amountRupees amount)) (Fin 100))"

definition amountToWordsWithPaise :: "number \<Rightarrow> jsstring" where
  "amountToWordsWithPaise amount =
     (let rupees = amountRupees amount;
          paise = amountPaise amount;
          words = numberToWords rupees;
          words = (if words \<noteq> [] then words @ str '' Rupees'' else words);
          words = (if js_gt paise (Fin 0)
                   then words @ str '' and '' @ numberToWords paise @ str '' Paise''
                   else words)
      in words @ str '' only'')"

text \<open>
  The wording of the rupee part as the specification describes it, on natural numbers:
  the irregular words for 0 to 19, the tens from twenty on, then the groups Crore, Lakh,
  Thousand and Hundred, highest first, and the remainder under 100.
\<close>

definition spec_below100 :: "nat \<Rightarrow> jsstring" where
  "spec_below100 k =
     (if k < 20 then numberToWords_a ! k
      else numberToWords_b ! (k div 10)
             @ (if k mod 10 = 0 then [] else str '' '' @ numberToWords_a ! (k mod 10)))"

definition spec_groups :: "nat \<Rightarrow> jsstring" where
  "spec_groups n =
     (if n div 10000000 = 0 then [] else spec_below100 (n div 10000000) @ str '' Crore '')
     @ (if n div 100000 mod 100 = 0 then []
        else spec_below100 (n div 100000 mod 100) @ str '' Lakh '')
     @ (if n div 1000 mod 100 = 0 then []
        else spec_below100 (n div 1000 mod 100) @ str '' Thousand '')
     @ (if n div 100 mod 10 = 0 then []
        else numberToWords_a ! (n div 100 mod 10) @ str '' Hundred '')"

definition spec_numberToWords :: "nat \<Rightarrow> jsstring" where
  "spec_numberToWords n =
     (if n = 0 then str ''Zero''
      else if 999999999 < n then str ''Amount too large''
      else trim (spec_groups n
                 @ (if n mod 100 = 0 then []
                    else (if spec_groups n = [] then [] else str ''and '')
                           @ spec_below100 (n mod 100) @ str '' '')))"

text \<open>
  The whole sentence as the specification describes it: the rupee words and "Rupees",
  then "and", the paise words and "Paise" when there is a paise remainder, then "only".
\<close>

definition spec_amountToWords :: "nat \<Rightarrow> nat \<Rightarrow> jsstring" where
  "spec_amountToWords rupees paise =
     spec_numberToWords rupees @ str '' Rupees''
     @ (if 0 < paise then str '' and '' @ spec_numberToWords paise @ str '' Paise'' else [])
     @ str '' only''"

text \<open>A text that begins with the capital of one of the number words.\<close>

definition wordStart :: "jsstring \<Rightarrow> bool" where
  "wordStart w = (w \<noteq> [] \<and> hd w \<in> set (str ''OTFSEN''))"

section \<open>Invoice calculation (app/create-invoice/page)\<close>

text \<open>
  The form state \<open>invoiceData\<close> holds the text of every input field under a key such as
  \<open>expense3_rs\<close> or \<open>row0_price\<close>; a field never edited is undefined. The page exists
  in three copies whose calculation functions differ only in how a field is read:
  \<open>parseFloat(v || '0') || 0\<close> in the first, \<open>parseMarathiNumber(v || '0')\<close> in the
  other two. The reader is a parameter of the functions below. Their sums, products
  and quotients are the exact ones.
\<close>

datatype field =
  Expense_rs nat | Expense_paise nat | Empty_rs nat | Empty_paise nat
  | Row_item nat | Row_piece nat | Row_price nat

type_synonym invoiceData = "field \<Rightarrow> jsstring option"

definition orText0 :: "jsstring option \<Rightarrow> jsstring" where
  "orText0 v = (case v of None \<Rightarrow> str ''0'' | Some s \<Rightarrow> if s = [] then str ''0'' else s)"

definition readParseFloat :: "jsstring option \<Rightarrow> number" where
  "readParseFloat v = orZero (parseFloat (orText0 v))"

definition readMarathi :: "jsstring option \<Rightarrow> number" where
  "readMarathi v = parseMarathiNumber (orText0 v)"

text \<open>An amount \<open>{ rs, paise }\<close>; both components are null for a blank amount.\<close>

record MonetaryAmount =
  rs :: "number option"
  paise :: "number option"

record NetBalance = MonetaryAmount +
  isNegative :: bool

text \<open>A component used in arithmetic: null counts as zero.\<close>

definition toNumber :: "number option \<Rightarrow> number" where
  "toNumber v = (case v of None \<Rightarrow> Fin 0 | Some x \<Rightarrow> x)"

text \<open>One pass of the summing loops: \<open>totalPaise += (rs * 100) + paise\<close>.\<close>

definition addEntry ::
  "(jsstring option \<Rightarrow> number) \<Rightarrow> invoiceData \<Rightarrow> field \<Rightarrow> field \<Rightarrow> number \<Rightarrow> number" where
  "addEntry num d rsField paiseField totalPaise =
     js_add totalPaise (js_add (js_mul (num (d rsField)) (Fin 100)) (num (d paiseField)))"

definition expensesTotalPaise :: "(jsstring option \<Rightarrow> number) \<Rightarrow> invoiceData \<Rightarrow> number" where
  "expensesTotalPaise num d =
     (let totalPaise = Fin 0;
          totalPaise = foldl (\<lambda>t i. addEntry num d (Expense_rs i) (Expense_paise i) t)
                         totalPaise [0..<8];
          totalPaise = foldl (\<lambda>t i. addEntry num d (Empty_rs i) (Empty_paise i) t)
                         totalPaise [0..<5]
      in totalPaise)"

definition calculateTotalExpenses ::
  "(jsstring option \<Rightarrow> number) \<Rightarrow> invoiceData \<Rightarrow> MonetaryAmount" where
  "calculateTotalExpenses num d =
     (let totalPaise = expensesTotalPaise num d;
          totalRs = js_floor (js_div totalPaise 100);
          remainingPaise = js_rem totalPaise 100
      in \<lparr>rs = Some totalRs, paise = Some remainingPaise\<rparr>)"

definition rowQuantity :: "(jsstring option \<Rightarrow> number) \<Rightarrow> invoiceData \<Rightarrow> nat \<Rightarrow> number" where
  "rowQuantity num d rowIndex =
     (let piece = num (d (Row_item rowIndex));
          crates = num (d (Row_piece rowIndex))
      in if js_gt piece (Fin 0) then piece else crates)"

definition calculateRowTotal ::
  "(jsstring option \<Rightarrow> number) \<Rightarrow> invoiceData \<Rightarrow> nat \<Rightarrow> MonetaryAmount" where
  "calculateRowTotal num d rowIndex =
     (let perUnitPrice = num (d (Row_price rowIndex));
          quantity = rowQuantity num d rowIndex
      in if quantity = Fin 0 \<or> perUnitPrice = Fin 0 then \<lparr>rs = None, paise = None\<rparr>
         else
           (let totalPaise = js_round (js_mul (js_mul quantity perUnitPrice) (Fin 100));
                totalRs = js_floor (js_div totalPaise 100);
                remainingPaise = js_rem totalPaise 100
            in \<lparr>rs = Some totalRs, paise = Some remainingPaise\<rparr>))"

definition addRow :: "(jsstring option \<Rightarrow> number) \<Rightarrow> invoiceData \<Rightarrow> number \<Rightarrow> nat \<Rightarrow> number" where
  "addRow num d totalPaise i =
     (let rowTotal = calculateRowTotal num d i
      in if rs rowTotal \<noteq> None \<and> paise rowTotal \<noteq> None
         then js_add totalPaise
                (js_add (js_mul (toNumber (rs rowTotal)) (Fin 100)) (toNumber (paise rowTotal)))
         else totalPaise)"

definition salesTotalPaise :: "(jsstring option \<Rightarrow> number) \<Rightarrow> invoiceData \<Rightarrow> number" where
  "salesTotalPaise num d = foldl (addRow num d) (Fin 0) [0..<13]"

definition calculateTotalSales ::
  "(jsstring option \<Rightarrow> number) \<Rightarrow> invoiceData \<Rightarrow> MonetaryAmount" where
  "calculateTotalSales num d =
     (let totalPaise = salesTotalPaise num d
      in if totalPaise = Fin 0 then \<lparr>rs = None, paise = None\<rparr>
         else
           (let totalRs = js_floor (js_div totalPaise 100);
                remainingPaise = js_rem totalPaise 100
            in \<lparr>rs = Some totalRs, paise = Some remainingPaise\<rparr>))"

definition calculateNetBalance ::
  "(jsstring option \<Rightarrow> number) \<Rightarrow> invoiceData \<Rightarrow> NetBalance" where
  "calculateNetBalance num d =
     (let totalSales = calculateTotalSales num d;
          totalExpenses = calculateTotalExpenses num d
      in if rs totalSales = None \<or> paise totalSales = None
         then \<lparr>rs = None, paise = None, isNegative = False\<rparr>
         else
           (let salesPaise = js_add (js_mul (toNumber (rs totalSales)) (Fin 100))
                               (toNumber (paise totalSales));
                expensesPaise = js_add (js_mul (toNumber (rs totalExpenses)) (Fin 100))
                                  (toNumber (paise totalExpenses));
                netPaise = js_sub salesPaise expensesPaise;
                netRs = js_floor (js_div (js_abs netPaise) 100);
                netRemainingPaise = js_rem (js_abs netPaise) 100
            in \<lparr>rs = Some netRs, paise = Some netRemainingPaise,
                 isNegative = js_lt netPaise (Fin 0)\<rparr>))"

text \<open>
  Example states of the form: a row of 5 pieces at 10 with an expense of 70 rupees; a
  row whose total rounds to zero paise; an expense of -50 paise; an expense of 0.5
  paise; a row of one piece at -0.5.
\<close>

definition exampleInvoice :: invoiceData where
  "exampleInvoice =
     Map.empty(Row_item 0 \<mapsto> str ''5'', Row_price 0 \<mapsto> str ''10'', Expense_rs 0 \<mapsto> str ''70'')"

definition exampleZeroRow :: invoiceData where
  "exampleZeroRow = Map.empty(Row_item 0 \<mapsto> str ''0.001'', Row_price 0 \<mapsto> str ''1'')"








section \<open>Tax (components/InvoicePreview)\<close>

text \<open>
  The tax block of the invoice preview, from the tax mode, the rate and the taxable
  amount; every operation is a binary64 operation.
\<close>

datatype gstType = IGST | CGST_SGST

record gstValues =
  cgstVal :: number
  sgstVal :: number
  igstVal :: number
  netAmountVal :: number

definition gstAmounts :: "gstType \<Rightarrow> number \<Rightarrow> number \<Rightarrow> gstValues" where
  "gstAmounts gstType gstRate taxableAmount =
     (if gstType = IGST then
        (let igstRateNum = gstRate;
             igst = plusToFixed2 (f64_mul taxableAmount (f64_div igstRateNum 100));
             net = plusToFixed2 (f64_add taxableAmount igst)
         in \<lparr>cgstVal = Fin 0, sgstVal = Fin 0, igstVal = igst, netAmountVal = net\<rparr>)
      else
        (let cgstRateNum = f64_div gstRate 2;
             sgstRateNum = f64_div gstRate 2;
             cgst = plusToFixed2 (f64_mul taxableAmount (f64_div cgstRateNum 100));
             sgst = plusToFixed2 (f64_mul taxableAmount (f64_div sgstRateNum 100));
             net = plusToFixed2 (f64_add (f64_add taxableAmount cgst) sgst)
         in \<lparr>cgstVal = cgst, sgstVal = sgst, igstVal = Fin 0, netAmountVal = net\<rparr>))"

text \<open>
  Rounding to two decimals as the specification words it, for comparison: a number with
  at most two decimals that is nearest to the argument.
\<close>

definition spec_twoDecimals :: "real \<Rightarrow> real \<Rightarrow> bool" where
  "spec_twoDecimals x y = (of_int \<lfloor>y * 100\<rfloor> = y * 100 \<and> \<bar>y - x\<bar> \<le> 1 / 200)"

section \<open>Transliteration (utils/transliterate)\<close>

definition isDevanagari :: "nat \<Rightarrow> bool" where
  "isDevanagari c = (0x900 \<le> c \<and> c \<le> 0x97F)"

text \<open>The test of the source for a code unit from U+0900 to U+097F.\<close>

definition hasMarathi :: "jsstring \<Rightarrow> bool" where
  "hasMarathi text = list_ex isDevanagari text"

text \<open>
  \<open>toLowerCase\<close> on the letters A to Z. The case mappings of code units outside ASCII
  are not modelled: such code units are kept.
\<close>

definition toLowerCase :: "jsstring \<Rightarrow> jsstring" where
  "toLowerCase s = map (\<lambda>c. if 0x41 \<le> c \<and> c \<le> 0x5A then c + 0x20 else c) s"

definition CORRECTION_DICTIONARY :: "(jsstring \<times> jsstring) list" where
  "CORRECTION_DICTIONARY =
     [(str ''mumbai'', [0x92E, 0x941, 0x902, 0x92C, 0x908]),
      (str ''Mumbai'', [0x92E, 0x941, 0x902, 0x92C, 0x908]),
      (str ''MUMBAI'', [0x92E, 0x941, 0x902, 0x92C, 0x908]),
      (str ''delhi'', [0x926, 0x93F, 0x932, 0x94D, 0x932, 0x940]),
      (str ''Delhi'', [0x926, 0x93F, 0x932, 0x94D, 0x932, 0x940]),
      (str ''DELHI'', [0x926, 0x93F, 0x932, 0x94D, 0x932, 0x940]),
      (str ''bhaskar'', [0x92D, 0x93E, 0x938, 0x94D, 0x915, 0x930]),
      (str ''Bhaskar'', [0x92D, 0x93E, 0x938, 0x94D, 0x915, 0x930]),
      (str ''BHASKAR'', [0x92D, 0x93E, 0x938, 0x94D, 0x915, 0x930])]"

text \<open>
  The dictionary is a plain object, so reading it at the name of a member of
  \<open>Object.prototype\<close> finds that member, which is truthy and is not a text.
\<close>

definition objectPrototypeKeys :: "jsstring list" where
  "objectPrototypeKeys =
     map str [''constructor'', ''hasOwnProperty'', ''isPrototypeOf'', ''propertyIsEnumerable'',
       ''toLocaleString'', ''toString'', ''valueOf'', ''__proto__'', ''__defineGetter__'',
       ''__defineSetter__'', ''__lookupGetter__'', ''__lookupSetter__'']"

datatype wordValue = Text jsstring | Member jsstring

definition dictionaryAt :: "jsstring \<Rightarrow> wordValue option" where
  "dictionaryAt key =
     (case map_of CORRECTION_DICTIONARY key of
        Some v \<Rightarrow> Some (Text v)
      | None \<Rightarrow> if key \<in> set objectPrototypeKeys then Some (Member key) else None)"

text \<open>
  The external backend: \<open>processAsync(format, 'Devanagari', text, {nativize})\<close> resolves
  with a text or rejects (\<open>None\<close>). The environment says whether \<open>window\<close> is defined
  and what \<open>getAksharamukhaInstance\<close> resolves with (\<open>None\<close> when the script did not
  load or the instance could not be made), and how the engine prints a member of
  \<open>Object.prototype\<close>.
\<close>

datatype format = IAST | ITRANS | Autodetect | Latin

type_synonym aksharamukha = "format \<Rightarrow> bool \<Rightarrow> jsstring \<Rightarrow> jsstring option"

record env =
  windowDefined :: bool
  aksharamukhaInstance :: "aksharamukha option"
  memberText :: "jsstring \<Rightarrow> jsstring"

definition preprocessWordForAksharamukha :: "jsstring \<Rightarrow> jsstring" where
  "preprocessWordForAksharamukha word = toLowerCase word"

definition attempts :: "(format \<times> bool) list" where
  "attempts =
     [(IAST, True), (ITRANS, True), (Autodetect, True), (Latin, True),
      (IAST, False), (ITRANS, False), (Autodetect, False)]"

definition marathiCount :: "jsstring \<Rightarrow> nat" where
  "marathiCount s = length (filter isDevanagari s)"

text \<open>
  The loop over the attempts; the state is \<open>(bestResult, transliterated)\<close>. A rejected
  call goes on to the next attempt; an accepted result under \<open>nativize\<close> ends the loop.
\<close>

fun tryAttempts ::
  "aksharamukha \<Rightarrow> jsstring \<Rightarrow> jsstring \<Rightarrow> (format \<times> bool) list \<Rightarrow> jsstring \<times> jsstring
     \<Rightarrow> jsstring \<times> jsstring" where
  "tryAttempts ak word preprocessed [] state = state"
| "tryAttempts ak word preprocessed ((fmt, nativize) # rest) (bestResult, transliterated) =
     (case ak fmt nativize preprocessed of
        None \<Rightarrow> tryAttempts ak word preprocessed rest (bestResult, transliterated)
      | Some result \<Rightarrow>
          if result \<noteq> [] \<and> result \<noteq> preprocessed \<and> hasMarathi result then
            (let marathiChars = marathiCount result;
                 bestMarathiChars = marathiCount bestResult;
                 state = (if bestMarathiChars < marathiChars \<or> bestResult = word
                          then (result, result) else (bestResult, transliterated))
             in if nativize \<and> 0 < marathiChars then state
                else tryAttempts ak word preprocessed rest state)
          else tryAttempts ak word preprocessed rest (bestResult, transliterated))"

definition transliterateWord :: "jsstring \<Rightarrow> aksharamukha option \<Rightarrow> wordValue" where
  "transliterateWord word aksharamukha =
     (let lowerWord = toLowerCase word
      in case dictionaryAt lowerWord of
           Some v \<Rightarrow> v
         | None \<Rightarrow>
             (case dictionaryAt word of
                Some v \<Rightarrow> v
              | None \<Rightarrow>
                  (case aksharamukha of
                     None \<Rightarrow> Text word
                   | Some ak \<Rightarrow>
                       (let preprocessed = preprocessWordForAksharamukha word;
                            (bestResult, transliterated) =
                               tryAttempts ak word preprocessed attempts (word, word)
                        in if bestResult \<noteq> word \<and> hasMarathi bestResult then Text bestResult
                           else Text transliterated))))"

definition preprocessTextForTransliteration :: "jsstring \<Rightarrow> jsstring" where
  "preprocessTextForTransliteration text = text"

text \<open>The separators of the word split: \<open>[.,;:!?\-_()\[\]{}'"]\<close>.\<close>

definition isPunctuation :: "nat \<Rightarrow> bool" where
  "isPunctuation c = (c \<in> set (str ''.,;:!?-_()[]{}'' @ [0x27, 0x22]))"

text \<open>
  \<open>split(/(\s+|[.,;:!?\-_()\[\]{}'"])/)\<close>: the pieces between the separators (empty
  ones included) with the separators themselves, a run of white space being one
  separator and each punctuation mark one.
\<close>

function splitWords :: "jsstring \<Rightarrow> jsstring \<Rightarrow> jsstring list" where
  "splitWords piece [] = [piece]"
| "splitWords piece (c # cs) =
     (if isWhiteSpace c
      then piece # (c # takeWhile isWhiteSpace cs) # splitWords [] (dropWhile isWhiteSpace cs)
      else if isPunctuation c then piece # [c] # splitWords [] cs
      else splitWords (piece @ [c]) cs)"
  by pat_completeness auto
termination
  by (relation "measure (\<lambda>(piece, rest). length rest)")
    (auto simp: length_dropWhile_le less_Suc_eq_le)

definition transliteratePiece :: "aksharamukha \<Rightarrow> jsstring \<Rightarrow> wordValue" where
  "transliteratePiece ak word =
     (if list_all isWhiteSpace word \<or> (word \<noteq> [] \<and> list_all isPunctuation word) then Text word
      else if hasMarathi word then Text word
      else if trim word \<noteq> [] \<and> list_all isAsciiDigit (trim word) then Text word
      else transliterateWord (trim word) (Some ak))"

definition printValue :: "env \<Rightarrow> wordValue \<Rightarrow> jsstring" where
  "printValue e v = (case v of Text s \<Rightarrow> s | Member k \<Rightarrow> memberText e k)"

definition transliterateToMarathiAsync :: "env \<Rightarrow> jsstring \<Rightarrow> jsstring" where
  "transliterateToMarathiAsync e text =
     (if text = [] then text
      else if hasMarathi text then text
      else if \<not> windowDefined e then text
      else
        (case aksharamukhaInstance e of
           None \<Rightarrow> text
         | Some ak \<Rightarrow>
             (let preprocessed = preprocessTextForTransliteration text;
                  wholePhraseResult = ak IAST True (toLowerCase preprocessed);
                  transliteratedWords =
                    map (transliteratePiece ak) (splitWords [] preprocessed)
              in case wholePhraseResult of
                   Some whole \<Rightarrow>
                     if whole \<noteq> [] \<and> whole \<noteq> toLowerCase preprocessed \<and> hasMarathi whole
                          \<and> 0 < length whole
                     then whole
                     else concat (map (printValue e) transliteratedWords)
                 | None \<Rightarrow> concat (map (printValue e) transliteratedWords))))"

text \<open>
  Example environments: a browser where the backend did not load, a server-side render,
  and a browser with a backend that answers every request with one Devanagari text.
\<close>

definition backendUnavailable :: env where
  "backendUnavailable =
     \<lparr>windowDefined = True, aksharamukhaInstance = None, memberText = (\<lambda>k. [])\<rparr>"

definition serverSide :: env where
  "serverSide = \<lparr>windowDefined = False, aksharamukhaInstance = None, memberText = (\<lambda>k. [])\<rparr>"

definition exampleBackend :: aksharamukha where
  "exampleBackend fmt nativize text = Some [0x92E, 0x941, 0x92E, 0x94D, 0x92C, 0x908]"

definition backendAvailable :: env where
  "backendAvailable =
     \<lparr>windowDefined = True, aksharamukhaInstance = Some exampleBackend,
      memberText = (\<lambda>k. [])\<rparr>"

section \<open>Phonetic transliteration (utils/phoneticTransliterate)\<close>

text \<open>\<open>text[i]\<close> appended to the result: the text "undefined" beyond the end.\<close>

definition charAt :: "jsstring \<Rightarrow> nat \<Rightarrow> jsstring" where
  "charAt text i = (if i < length text then [text ! i] else str ''undefined'')"

text \<open>
  One pass of the loop of \<open>phoneticTransliterate\<close> at index \<open>i\<close>: what is appended to
  the result, and whether two characters were consumed rather than one. \<open>nextChar\<close> is
  \<open>None\<close> for the empty string the source uses at the end of the text.
\<close>

definition phoneticStep :: "jsstring \<Rightarrow> jsstring \<Rightarrow> nat \<Rightarrow> jsstring \<times> bool" where
  "phoneticStep text lowerText i =
     (let char = lowerText ! i;
          nextChar = (if i + 1 < length lowerText then Some (lowerText ! (i + 1)) else None)
      in if char = 0x6D \<and> nextChar = Some 0x62 then ([0x92E, 0x94D, 0x92C], True)
         else if char = 0x61 \<and> nextChar = Some 0x69 \<and> length lowerText \<le> i + 2
           then ([0x908], True)
         else if char = 0x61 \<and> nextChar = Some 0x69 then ([0x910], True)
         else if char = 0x6C \<and> nextChar = Some 0x6C then ([0x932, 0x94D, 0x932], True)
         else if char = 0x73 \<and> nextChar = Some 0x6B then ([0x938, 0x94D, 0x915], True)
         else if char = 0x73 \<and> nextChar = Some 0x68 then ([0x936], True)
         else if char = 0x63 \<and> nextChar = Some 0x68 then ([0x91A], True)
         else if char = 0x74 \<and> nextChar = Some 0x68 then ([0x925], True)
         else if char = 0x6B \<and> nextChar = Some 0x68 then ([0x916], True)
         else if char = 0x67 \<and> nextChar = Some 0x68 then ([0x918], True)
         else if char = 0x62 \<and> nextChar = Some 0x68 then ([0x92D], True)
         else if char = 0x70 \<and> nextChar = Some 0x68 then ([0x92B], True)
         else if char = 0x64 \<and> nextChar = Some 0x68 then ([0x927], True)
         else if char = 0x6A \<and> nextChar = Some 0x68 then ([0x91D], True)
         else if char = 0x61 then ([0x905], False)
         else if char = 0x69 then ([0x907], False)
         else if char = 0x75 then ([0x909], False)
         else if char = 0x65 then ([0x90F], False)
         else if char = 0x6F then ([0x913], False)
         else if char = 0x6D then ([0x92E], False)
         else if char = 0x62 then ([0x92C], False)
         else if char = 0x64 then ([0x926], False)
         else if char = 0x6C then ([0x932], False)
         else if char = 0x68 then ([0x939], False)
         else if char = 0x6B then ([0x915], False)
         else if char = 0x72 then ([0x930], False)
         else if char = 0x73 then ([0x938], False)
         else if char = 0x63 then ([0x91A], False)
         else if char = 0x74 then ([0x924], False)
         else if char = 0x70 then ([0x92A], False)
         else if char = 0x67 then ([0x917], False)
         else if char = 0x6A then ([0x91C], False)
         else if char = 0x6E then ([0x928], False)
         else if char = 0x79 then ([0x92F], False)
         else if char = 0x76 \<or> char = 0x77 then ([0x935], False)
         else if isWhiteSpace char \<or> isPunctuation char then (charAt text i, False)
         else (charAt text i, False))"

function phoneticLoop :: "jsstring \<Rightarrow> jsstring \<Rightarrow> nat \<Rightarrow> jsstring" where
  "phoneticLoop text lowerText i =
     (if i < length lowerText
      then fst (phoneticStep text lowerText i)
             @ phoneticLoop text lowerText (if snd (phoneticStep text lowerText i) then i + 2 else i + 1)
      else [])"
  by pat_completeness auto
termination
  by (relation "measure (\<lambda>(text, lowerText, i). length lowerText - i)") auto

declare phoneticLoop.simps [simp del]

definition phoneticTransliterate :: "jsstring \<Rightarrow> jsstring" where
  "phoneticTransliterate text =
     (if text = [] then text
      else if hasMarathi text then text
      else phoneticLoop text (toLowerCase text) 0)"

text \<open>The letters the loop of \<open>phoneticTransliterate\<close> has a rule for, in either case.\<close>

definition phoneticLetter :: "nat \<Rightarrow> bool" where
  "phoneticLetter c = (c \<in> set (str ''abcdeghijklmnoprstuvwyABCDEGHIJKLMNOPRSTUVWY''))"

text \<open>The lowercase letters with a rule, and a non-empty text of Devanagari only.\<close>

definition lowerLetter :: "nat \<Rightarrow> bool" where
  "lowerLetter c = (c \<in> set (str ''abcdeghijklmnoprstuvwy''))"

definition devanagariText :: "jsstring \<Rightarrow> bool" where
  "devanagariText s = (s \<noteq> [] \<and> list_all isDevanagari s)"

section \<open>The rounding to binary64\<close>

text \<open>
  The exponent found by the walk encloses the number; in the normal range the rounded
  number is within half a unit in the last place, that is within \<open>|x| / 2^53\<close>; a
  whole number of magnitude below 2^53 is rounded to itself, and rounding does not
  cross such a number.
\<close>

lemma pow2_powi: "pow2 k = 2 powi k"
  by (simp add: pow2_def power_int_def inverse_eq_divide power_one_over)

lemma pow2_pos: "0 < pow2 k"
  by (simp add: pow2_powi zero_less_power_int)

lemma pow2_add: "pow2 (a + b) = pow2 a * pow2 b"
  by (simp add: pow2_powi power_int_add)

lemma pow2_mono: "a \<le> b \<Longrightarrow> pow2 a \<le> pow2 b"
  by (simp add: pow2_powi power_int_increasing)

lemma pow2_strict_mono: "a < b \<Longrightarrow> pow2 a < pow2 b"
  by (simp add: pow2_powi power_int_strict_increasing)

lemma pow2_less_imp: "pow2 a \<le> x \<Longrightarrow> x < pow2 b \<Longrightarrow> a < b"
proof (rule ccontr)
  assume a: "pow2 a \<le> x" "x < pow2 b" "\<not> a < b"
  then have "pow2 b \<le> pow2 a" by (intro pow2_mono) simp
  then show False using a by linarith
qed

lemma findExponent_up:
  assumes "pow2 e \<le> x" "x < pow2 (e + 1 + int n)" "n \<le> fuel" "e + int n \<le> 1023"
  shows "pow2 (findExponent fuel e x) \<le> x \<and> x < pow2 (findExponent fuel e x + 1)"
  using assms
proof (induction fuel arbitrary: e n)
  case 0
  then show ?case by simp
next
  case (Suc fuel)
  show ?case
  proof (cases "pow2 (e + 1) \<le> x")
    case True
    have "e + 1 < e + 1 + int n" using True Suc.prems(2) by (rule pow2_less_imp)
    then have n: "0 < n" by simp
    then have e: "e < 1024" using Suc.prems(4) by linarith
    have "pow2 (findExponent fuel (e + 1) x) \<le> x
          \<and> x < pow2 (findExponent fuel (e + 1) x + 1)"
    proof (rule Suc.IH [of "e + 1" "n - 1"])
      show "pow2 (e + 1) \<le> x" by (rule True)
      have eq: "e + 1 + 1 + int (n - 1) = e + 1 + int n" using n by linarith
      show "x < pow2 (e + 1 + 1 + int (n - 1))" unfolding eq by (rule Suc.prems(2))
      show "n - 1 \<le> fuel" using Suc.prems(3) by simp
      show "e + 1 + int (n - 1) \<le> 1023" using Suc.prems(4) n by linarith
    qed
    then show ?thesis using True e by simp
  next
    case False
    then show ?thesis using Suc.prems(1) by simp
  qed
qed

lemma findExponent_down:
  assumes "x < pow2 (e + 1)" "pow2 (e - int n) \<le> x" "n \<le> fuel" "- 1022 \<le> e - int n"
  shows "pow2 (findExponent fuel e x) \<le> x \<and> x < pow2 (findExponent fuel e x + 1)"
  using assms
proof (induction fuel arbitrary: e n)
  case 0
  then show ?case by simp
next
  case (Suc fuel)
  have up: "\<not> pow2 (e + 1) \<le> x" using Suc.prems(1) by simp
  show ?case
  proof (cases "x < pow2 e")
    case True
    have "e - int n < e" using Suc.prems(2) True by (rule pow2_less_imp)
    then have n: "0 < n" by simp
    then have e: "- 1022 < e" using Suc.prems(4) by linarith
    have "pow2 (findExponent fuel (e - 1) x) \<le> x
          \<and> x < pow2 (findExponent fuel (e - 1) x + 1)"
    proof (rule Suc.IH [of "e - 1" "n - 1"])
      show "x < pow2 (e - 1 + 1)" using True by simp
      have eq: "e - 1 - int (n - 1) = e - int n" using n by linarith
      show "pow2 (e - 1 - int (n - 1)) \<le> x" unfolding eq by (rule Suc.prems(2))
      show "n - 1 \<le> fuel" using Suc.prems(3) by simp
      show "- 1022 \<le> e - 1 - int (n - 1)" using Suc.prems(4) n by linarith
    qed
    then show ?thesis using True up e by simp
  next
    case False
    then show ?thesis using up Suc.prems(1) by simp
  qed
qed

lemma binaryExponent_bounds:
  assumes "pow2 (- 1022) \<le> \<bar>x\<bar>" "\<bar>x\<bar> < pow2 1024"
  shows "pow2 (binaryExponent x) \<le> \<bar>x\<bar> \<and> \<bar>x\<bar> < pow2 (binaryExponent x + 1)"
proof (cases "1 \<le> \<bar>x\<bar>")
  case True
  show ?thesis unfolding binaryExponent_def
  proof (rule findExponent_up [of 0 _ 1023])
    show "pow2 0 \<le> \<bar>x\<bar>" using True by (simp add: pow2_def)
    show "\<bar>x\<bar> < pow2 (0 + 1 + int 1023)" using assms(2) by simp
  qed simp_all
next
  case False
  show ?thesis unfolding binaryExponent_def
  proof (rule findExponent_down [of _ 0 1022])
    show "\<bar>x\<bar> < pow2 (0 + 1)" using False by (simp add: pow2_def)
    show "pow2 (0 - int 1022) \<le> \<bar>x\<bar>" using assms(1) by simp
  qed simp_all
qed

lemma roundHalfEven_close: "\<bar>of_int (roundHalfEven z) - z\<bar> \<le> 1 / 2"
proof -
  have "of_int \<lfloor>z\<rfloor> \<le> z" "z < of_int \<lfloor>z\<rfloor> + 1" by linarith+
  then show ?thesis unfolding roundHalfEven_def Let_def by (auto simp: abs_le_iff)
qed

lemma roundHalfEven_int: "roundHalfEven (of_int k) = k"
  by (simp add: roundHalfEven_def)

text \<open>In the normal range the rounding is within half a unit in the last place.\<close>

lemma toBinary64_close:
  assumes "pow2 (- 1022) \<le> \<bar>x\<bar>" "\<bar>x\<bar> < pow2 1023"
  shows "\<exists>y. toBinary64 x = Fin y \<and> \<bar>y - x\<bar> \<le> \<bar>x\<bar> / 2 ^ 53"
proof -
  define e where "e = binaryExponent x"
  define q where "q = pow2 (e - 52)"
  define y where "y = of_int (roundHalfEven (x / q)) * q"
  have "\<bar>x\<bar> < pow2 1024" using assms(2) pow2_strict_mono [of 1023 1024] by linarith
  then have b: "pow2 e \<le> \<bar>x\<bar>" "\<bar>x\<bar> < pow2 (e + 1)"
    unfolding e_def using binaryExponent_bounds [OF assms(1)] by simp_all
  have e: "e < 1023" using b(1) assms(2) by (rule pow2_less_imp)
  have q0: "0 < q" unfolding q_def by (rule pow2_pos)
  have x0: "x \<noteq> 0" using assms(1) pow2_pos [of "- 1022"] by auto
  have pe: "pow2 e = q * 2 ^ 52"
  proof -
    have "pow2 e = pow2 ((e - 52) + 52)" by simp
    also have "\<dots> = pow2 (e - 52) * pow2 52" by (rule pow2_add)
    finally show ?thesis by (simp add: q_def pow2_def)
  qed
  have "\<bar>of_int (roundHalfEven (x / q)) - x / q\<bar> \<le> 1 / 2" by (rule roundHalfEven_close)
  then have "\<bar>of_int (roundHalfEven (x / q)) - x / q\<bar> * q \<le> 1 / 2 * q"
    using q0 by (intro mult_right_mono) simp_all
  moreover have "\<bar>of_int (roundHalfEven (x / q)) - x / q\<bar> * q = \<bar>y - x\<bar>"
  proof -
    have "\<bar>of_int (roundHalfEven (x / q)) - x / q\<bar> * q
            = \<bar>(of_int (roundHalfEven (x / q)) - x / q) * q\<bar>"
      using q0 by (simp add: abs_mult)
    also have "(of_int (roundHalfEven (x / q)) - x / q) * q = y - x"
      using q0 by (simp add: y_def algebra_simps)
    finally show ?thesis .
  qed
  ultimately have c: "\<bar>y - x\<bar> \<le> q / 2" by simp
  have "q / 2 = pow2 e / 2 ^ 53" by (simp add: pe)
  also have "\<dots> \<le> \<bar>x\<bar> / 2 ^ 53" using b(1) by (simp add: divide_right_mono)
  finally have d: "\<bar>y - x\<bar> \<le> \<bar>x\<bar> / 2 ^ 53" using c by linarith
  have "pow2 (e + 1) \<le> pow2 1023" using e by (intro pow2_mono) simp
  then have "\<bar>x\<bar> < pow2 1023" using b(2) by linarith
  moreover have "\<bar>x\<bar> / 2 ^ 53 \<le> \<bar>x\<bar>" by (simp add: field_simps)
  ultimately have "\<bar>y\<bar> < 2 * pow2 1023" using d by linarith
  moreover have "2 * pow2 1023 = pow2 1024"
    using pow2_add [of 1 1023] by (simp add: pow2_def)
  ultimately have "\<not> pow2 1024 \<le> \<bar>y\<bar>" by simp
  then have "toBinary64 x = Fin y"
    unfolding toBinary64_def Let_def e_def [symmetric] q_def [symmetric] y_def [symmetric]
    using x0 by simp
  then show ?thesis using d by blast
qed

text \<open>A whole number of magnitude below 2^53 is a binary64 number.\<close>

lemma toBinary64_whole:
  assumes "\<bar>m\<bar> < 2 ^ 53"
  shows "toBinary64 (of_int m) = Fin (of_int m)"
proof (cases "m = 0")
  case True
  then show ?thesis by (simp add: toBinary64_def)
next
  case False
  define x :: real where "x = of_int m"
  define e where "e = binaryExponent x"
  define q where "q = pow2 (e - 52)"
  have x1: "1 \<le> \<bar>x\<bar>" using False unfolding x_def by (simp flip: of_int_abs)
  have "\<bar>x\<bar> < 2 ^ 53" using assms unfolding x_def
    by (metis of_int_abs of_int_less_numeral_power_cancel_iff)
  then have x2: "\<bar>x\<bar> < pow2 53" by (simp add: pow2_def)
  have "pow2 (- 1022) \<le> pow2 0" by (intro pow2_mono) simp
  then have lo: "pow2 (- 1022) \<le> \<bar>x\<bar>" using x1 by (simp add: pow2_def)
  have "pow2 53 \<le> pow2 1024" by (intro pow2_mono) simp
  then have hi: "\<bar>x\<bar> < pow2 1024" using x2 by linarith
  have b: "pow2 e \<le> \<bar>x\<bar>" "\<bar>x\<bar> < pow2 (e + 1)"
    unfolding e_def using binaryExponent_bounds [OF lo hi] by simp_all
  have e52: "e < 53" using b(1) x2 by (rule pow2_less_imp)
  have q: "q = 1 / 2 ^ nat (52 - e)"
  proof (cases "e = 52")
    case True
    then show ?thesis by (simp add: q_def pow2_def)
  next
    case False
    then have "e - 52 < 0" using e52 by simp
    moreover have "nat (- (e - 52)) = nat (52 - e)" by simp
    ultimately show ?thesis unfolding q_def pow2_def by simp
  qed
  have "x / q = of_int (m * 2 ^ nat (52 - e))" by (simp add: q x_def)
  then have r: "roundHalfEven (x / q) = m * 2 ^ nat (52 - e)"
    by (simp only: roundHalfEven_int)
  have y: "of_int (roundHalfEven (x / q)) * q = x"
    unfolding r by (simp add: q x_def)
  have "\<not> pow2 1024 \<le> \<bar>x\<bar>" using hi by simp
  moreover have "x \<noteq> 0" using x1 by auto
  ultimately have "toBinary64 x = Fin x"
    unfolding toBinary64_def Let_def e_def [symmetric] q_def [symmetric] y by simp
  then show ?thesis by (simp only: x_def)
qed

lemma findExponent_reached:
  assumes "e \<le> 0 \<or> pow2 e \<le> x"
  shows "findExponent fuel e x \<le> 0 \<or> pow2 (findExponent fuel e x) \<le> x"
  using assms
proof (induction fuel arbitrary: e)
  case 0
  then show ?case by simp
next
  case (Suc fuel)
  show ?case
  proof (cases "pow2 (e + 1) \<le> x \<and> e < 1024")
    case True
    then have "e + 1 \<le> 0 \<or> pow2 (e + 1) \<le> x" by simp
    then have "findExponent fuel (e + 1) x \<le> 0 \<or> pow2 (findExponent fuel (e + 1) x) \<le> x"
      by (rule Suc.IH)
    then show ?thesis by (simp add: True)
  next
    case up: False
    show ?thesis
    proof (cases "x < pow2 e \<and> - 1022 < e")
      case True
      then have "e \<le> 0" using Suc.prems by auto
      then have "e - 1 \<le> 0 \<or> pow2 (e - 1) \<le> x" by simp
      then have "findExponent fuel (e - 1) x \<le> 0 \<or> pow2 (findExponent fuel (e - 1) x) \<le> x"
        by (rule Suc.IH)
      then show ?thesis by (simp add: up True)
    next
      case down: False
      have "findExponent (Suc fuel) e x = e" by (simp add: up down)
      then show ?thesis using Suc.prems by simp
    qed
  qed
qed

lemma binaryExponent_below:
  assumes "\<bar>x\<bar> < 2 ^ 53"
  shows "binaryExponent x \<le> 52"
proof -
  have "binaryExponent x \<le> 0 \<or> pow2 (binaryExponent x) \<le> \<bar>x\<bar>"
    unfolding binaryExponent_def by (rule findExponent_reached) simp
  moreover have "\<bar>x\<bar> < pow2 53" using assms by (simp add: pow2_def)
  ultimately have "binaryExponent x \<le> 0 \<or> binaryExponent x < 53"
    using pow2_less_imp [of "binaryExponent x" "\<bar>x\<bar>" 53] by blast
  then show ?thesis by linarith
qed

lemma roundHalfEven_le:
  assumes "z \<le> of_int n"
  shows "roundHalfEven z \<le> n"
proof (cases "z = of_int n")
  case True
  then show ?thesis by (simp add: roundHalfEven_int)
next
  case False
  then have "z < of_int n" using assms by simp
  then have "\<lfloor>z\<rfloor> < n" by (simp add: floor_less_iff)
  then show ?thesis unfolding roundHalfEven_def Let_def by auto
qed

lemma roundHalfEven_nonneg:
  assumes "0 \<le> z"
  shows "0 \<le> roundHalfEven z"
proof -
  have "0 \<le> \<lfloor>z\<rfloor>" using assms by simp
  then show ?thesis unfolding roundHalfEven_def Let_def by auto
qed

text \<open>Rounding does not cross a whole number below 2^53.\<close>

lemma toBinary64_le_whole:
  assumes "0 \<le> x" "x \<le> real m" "m < 2 ^ 53"
  shows "\<exists>y. toBinary64 x = Fin y \<and> 0 \<le> y \<and> y \<le> real m"
proof (cases "x = 0")
  case True
  then show ?thesis by (simp add: toBinary64_def)
next
  case False
  define e where "e = binaryExponent x"
  define q where "q = pow2 (e - 52)"
  define y where "y = of_int (roundHalfEven (x / q)) * q"
  have "real m < 2 ^ 53" using assms(3) by (metis of_nat_less_numeral_power_cancel_iff)
  then have "\<bar>x\<bar> < 2 ^ 53" using assms(1,2) by simp
  then have e: "e \<le> 52" unfolding e_def by (rule binaryExponent_below)
  have q0: "0 < q" unfolding q_def by (rule pow2_pos)
  have q: "q = 1 / 2 ^ nat (52 - e)"
  proof (cases "e = 52")
    case True
    then show ?thesis by (simp add: q_def pow2_def)
  next
    case False
    then have "e - 52 < 0" using e by simp
    moreover have "nat (- (e - 52)) = nat (52 - e)" by simp
    ultimately show ?thesis unfolding q_def pow2_def by simp
  qed
  have mq: "real m / q = of_int (int m * 2 ^ nat (52 - e))" by (simp add: q)
  have "x / q \<le> real m / q" using assms(2) q0 by (simp add: divide_right_mono)
  then have "x / q \<le> of_int (int m * 2 ^ nat (52 - e))" by (simp only: mq)
  then have "roundHalfEven (x / q) \<le> int m * 2 ^ nat (52 - e)" by (rule roundHalfEven_le)
  then have "(of_int (roundHalfEven (x / q)) :: real) \<le> of_int (int m * 2 ^ nat (52 - e))"
    by (simp only: of_int_le_iff)
  then have "of_int (roundHalfEven (x / q)) \<le> real m / q" by (simp only: mq)
  then have "of_int (roundHalfEven (x / q)) * q \<le> real m / q * q"
    using q0 by (intro mult_right_mono) simp_all
  then have hi: "y \<le> real m" using q0 by (simp add: y_def)
  have "0 \<le> x / q" using assms(1) q0 by simp
  then have "0 \<le> roundHalfEven (x / q)" by (rule roundHalfEven_nonneg)
  then have lo: "0 \<le> y" using q0 by (simp add: y_def)
  have "(2::real) ^ 53 \<le> pow2 1024"
    using pow2_mono [of 53 1024] by (simp add: pow2_def)
  then have "\<not> pow2 1024 \<le> \<bar>y\<bar>" using lo hi \<open>real m < 2 ^ 53\<close> by simp
  then have "toBinary64 x = Fin y"
    unfolding toBinary64_def Let_def e_def [symmetric] q_def [symmetric] y_def [symmetric]
    using False by simp
  then show ?thesis using lo hi by blast
qed

lemma pow2_tiny: "pow2 (- 1022) \<le> 1 / 128"
  using pow2_mono [of "- 1022" "- 7"] by (simp add: pow2_def)

lemma toBinary64_near:
  assumes "1 / 128 \<le> x" "x \<le> b" "b \<le> 10 ^ 9"
  shows "\<exists>y. toBinary64 x = Fin y \<and> \<bar>y - x\<bar> \<le> b / 10 ^ 15"
proof -
  have x0: "0 \<le> x" using assms(1) by simp
  have lo: "pow2 (- 1022) \<le> \<bar>x\<bar>" using pow2_tiny assms(1) by simp
  have "x < 10 ^ 9 + 1" using assms(2,3) by simp
  moreover have "(10::real) ^ 9 + 1 \<le> pow2 1023"
    using pow2_mono [of 31 1023] by (simp add: pow2_def)
  ultimately have hi: "\<bar>x\<bar> < pow2 1023" using x0 by simp
  obtain y where y: "toBinary64 x = Fin y" "\<bar>y - x\<bar> \<le> \<bar>x\<bar> / 2 ^ 53"
    using toBinary64_close [OF lo hi] by blast
  have "\<bar>x\<bar> / 2 ^ 53 \<le> b / 2 ^ 53" using assms(2) x0 by (simp add: divide_right_mono)
  also have "\<dots> \<le> b / 10 ^ 15"
  proof -
    have "0 \<le> b" using x0 assms(2) by simp
    then show ?thesis by (intro divide_left_mono) simp_all
  qed
  finally show ?thesis using y by force
qed

text \<open>Evaluation of the rounding on a given number.\<close>

lemma findExponent_numeral:
  "findExponent (numeral n) e x =
     (if pow2 (e + 1) \<le> x \<and> e < 1024 then findExponent (pred_numeral n) (e + 1) x
      else if x < pow2 e \<and> - 1022 < e then findExponent (pred_numeral n) (e - 1) x
      else e)"
  by (simp add: numeral_eq_Suc)

lemmas f64_eval = toBinary64_def binaryExponent_def findExponent_numeral roundHalfEven_def
  pow2_def f64_add_def f64_sub_def f64_mul_def f64_div_def plusToFixed2_def Let_def

section \<open>Arithmetic of the model on natural numbers\<close>

lemma floor_div_nat: "\<lfloor>real n / real d\<rfloor> = int (n div d)"
  by (metis floor_divide_of_nat_eq of_int_of_nat_eq floor_of_int)

lemma trunc_nonneg: "0 \<le> r \<Longrightarrow> trunc r = \<lfloor>r\<rfloor>"
  by (simp add: trunc_def)

lemma real_mod_eq: "real n - real e * real (n div e) = real (n mod e)"
proof -
  have "n = e * (n div e) + n mod e" by simp
  then have "real n = real e * real (n div e) + real (n mod e)"
    by (metis of_nat_add of_nat_mult)
  then show ?thesis by simp
qed


lemma js_rem_gen: "js_rem (Fin (real n)) (real e) = Fin (real (n mod e))"
proof -
  have "trunc (real n / real e) = int (n div e)"
    by (simp add: trunc_nonneg floor_div_nat)
  then show ?thesis by (simp add: real_mod_eq)
qed

lemma pow2_small: "pow2 (- 1022) \<le> 1 / 10 ^ 7"
  using pow2_mono [of "- 1022" "- 24"] by (simp add: pow2_def)

text \<open>
  The floor of a binary64 quotient of whole numbers is the quotient of the whole
  numbers.
\<close>

lemma f64_div_floor:
  assumes "n < 2 ^ 53" "0 < d" "d \<le> 10 ^ 7"
  shows "\<exists>y. f64_div (Fin (real n)) (real d) = Fin y \<and> 0 \<le> y \<and> \<lfloor>y\<rfloor> = int (n div d)"
proof (cases "n mod d = 0")
  case True
  define q where "q = n div d"
  have "n = d * q" using True unfolding q_def by auto
  then have x: "real n / real d = of_int (int q)" using assms(2) by simp
  have "q \<le> n" unfolding q_def by simp
  then have "\<bar>int q\<bar> < 2 ^ 53" using assms(1) by simp
  then have "toBinary64 (real n / real d) = Fin (of_int (int q))"
    unfolding x by (rule toBinary64_whole)
  then have "f64_div (Fin (real n)) (real d) = Fin (real q)" by (simp add: f64_div_def)
  moreover have "\<lfloor>real q\<rfloor> = int (n div d)" by (simp add: q_def)
  ultimately show ?thesis by force
next
  case False
  define q where "q = n div d"
  define r where "r = n mod d"
  define x where "x = real n / real d"
  have d0: "0 < real d" using assms(2) by simp
  have r: "1 \<le> r" "r + 1 \<le> d" using False assms(2) unfolding r_def
    by (simp_all add: Suc_leI)
  have "n = q * d + r" unfolding q_def r_def by simp
  then have n: "real n = real q * real d + real r"
    by (metis of_nat_add of_nat_mult)
  have "real 1 \<le> real r" "real (r + 1) \<le> real d"
    using r by (simp_all only: of_nat_le_iff)
  then have rr: "1 \<le> real r" "real r + 1 \<le> real d" by simp_all
  have n53: "real n < 2 ^ 53" using assms(1) by (metis of_nat_less_numeral_power_cancel_iff)
  have xd: "x * real d = real n" using d0 by (simp add: x_def)
  have n1: "1 \<le> real n" using n rr by (simp add: add_increasing)
  have "real d \<le> real (10 ^ 7)" using assms(3) by (simp only: of_nat_le_iff)
  then have dd: "real d \<le> 10 ^ 7" by simp
  have "1 / 10 ^ 7 \<le> 1 / real d"
    using dd d0 by (intro divide_left_mono) simp_all
  also have "\<dots> \<le> x" unfolding x_def using n1 d0 by (simp add: divide_right_mono)
  finally have "pow2 (- 1022) \<le> x" using pow2_small by linarith
  then have lo: "pow2 (- 1022) \<le> \<bar>x\<bar>" by simp
  have x0: "0 \<le> x" unfolding x_def by simp
  have "real 1 \<le> real d" using assms(2) by (simp only: of_nat_le_iff)
  then have "real n * 1 \<le> real n * real d" by (intro mult_left_mono) simp_all
  then have "x \<le> real n" unfolding x_def using d0 by (simp add: pos_divide_le_eq)
  moreover have "(2::real) ^ 53 \<le> pow2 1023"
    using pow2_mono [of 53 1023] by (simp add: pow2_def)
  ultimately have hi: "\<bar>x\<bar> < pow2 1023" using n53 x0 by linarith
  obtain y where y: "toBinary64 x = Fin y" "\<bar>y - x\<bar> \<le> \<bar>x\<bar> / 2 ^ 53"
    using toBinary64_close [OF lo hi] by blast
  have "\<bar>y - x\<bar> * real d \<le> \<bar>x\<bar> / 2 ^ 53 * real d"
    using y(2) d0 by (intro mult_right_mono) simp_all
  also have "\<dots> = real n / 2 ^ 53" using x0 xd by simp
  also have "\<dots> < 1" using n53 by simp
  finally have "\<bar>y - x\<bar> * real d < 1" .
  moreover have "\<bar>y - x\<bar> * real d = \<bar>y * real d - real n\<bar>"
  proof -
    have "\<bar>y - x\<bar> * real d = \<bar>(y - x) * real d\<bar>" using d0 by (simp add: abs_mult)
    also have "(y - x) * real d = y * real d - real n" using xd by (simp add: algebra_simps)
    finally show ?thesis .
  qed
  ultimately have c: "real n - 1 < y * real d" "y * real d < real n + 1" by linarith+
  have "real q * real d < y * real d" using c(1) n rr(1) by linarith
  then have lo: "real q < y" using d0 by simp
  have "y * real d < (real q + 1) * real d" using c(2) n rr(2) by (simp add: algebra_simps)
  then have hi: "y < real q + 1" using d0 by simp
  have "\<lfloor>y\<rfloor> = int q"
  proof (rule floor_unique)
    show "of_int (int q) \<le> y" using lo by simp
    show "y < of_int (int q) + 1" using hi by simp
  qed
  moreover have "0 \<le> y" using lo by (simp add: order_trans [of 0 "real q"] less_imp_le)
  moreover have "f64_div (Fin (real n)) (real d) = Fin y"
    using y(1) by (simp add: f64_div_def x_def)
  ultimately show ?thesis unfolding q_def by blast
qed

lemma floor_rem_gen:
  assumes "0 \<le> x" "\<lfloor>x\<rfloor> = int q"
  shows "js_floor (js_rem (Fin x) (real e)) = Fin (real (q mod e))"
proof -
  have "\<lfloor>x / real e\<rfloor> = \<lfloor>x\<rfloor> div int e"
    using floor_divide_real_eq_div [of "int e" x] by simp
  then have t: "trunc (x / real e) = int (q div e)"
    using assms by (simp add: trunc_nonneg zdiv_int)
  have "\<lfloor>x - real e * real_of_int (trunc (x / real e))\<rfloor>
          = \<lfloor>x - real_of_int (int e * trunc (x / real e))\<rfloor>" by simp
  also have "\<dots> = \<lfloor>x\<rfloor> - int e * trunc (x / real e)"
    by (rule floor_diff_of_int)
  also have "\<dots> = int q - int e * int (q div e)" by (simp add: assms(2) t)
  also have "\<dots> = int (q mod e)"
    by (simp add: minus_mult_div_eq_mod [symmetric] of_nat_diff)
  finally have "\<lfloor>x - real e * real_of_int (trunc (x / real e))\<rfloor> = int (q mod e)" .
  then show ?thesis by simp
qed

lemma js_floor_f64_div:
  assumes "n < 2 ^ 53" "0 < d" "d \<le> 10 ^ 7"
  shows "js_floor (f64_div (Fin (real n)) (real d)) = Fin (real (n div d))"
proof -
  obtain y where y: "f64_div (Fin (real n)) (real d) = Fin y" "\<lfloor>y\<rfloor> = int (n div d)"
    using f64_div_floor [OF assms] by blast
  show ?thesis unfolding y(1) by (simp add: y(2))
qed

lemma js_floor_rem_f64_div:
  assumes "n < 2 ^ 53" "0 < d" "d \<le> 10 ^ 7"
  shows "js_floor (js_rem (f64_div (Fin (real n)) (real d)) (real e))
           = Fin (real ((n div d) mod e))"
proof -
  obtain y where y: "f64_div (Fin (real n)) (real d) = Fin y" "0 \<le> y"
    "\<lfloor>y\<rfloor> = int (n div d)"
    using f64_div_floor [OF assms] by blast
  show ?thesis unfolding y(1) using y(2,3) by (rule floor_rem_gen)
qed

lemma crore_nat:
  "n < 2 ^ 53 \<Longrightarrow> js_floor (f64_div (Fin (real n)) 10000000) = Fin (real (n div 10000000))"
  using js_floor_f64_div [of n 10000000] by simp

lemma lakh_nat:
  "n < 2 ^ 53 \<Longrightarrow>
     js_floor (js_rem (f64_div (Fin (real n)) 100000) 100) = Fin (real (n div 100000 mod 100))"
  using js_floor_rem_f64_div [of n 100000 100] by simp

lemma thousand_nat:
  "n < 2 ^ 53 \<Longrightarrow>
     js_floor (js_rem (f64_div (Fin (real n)) 1000) 100) = Fin (real (n div 1000 mod 100))"
  using js_floor_rem_f64_div [of n 1000 100] by simp

lemma hundred_nat:
  "n < 2 ^ 53 \<Longrightarrow>
     js_floor (js_rem (f64_div (Fin (real n)) 100) 10) = Fin (real (n div 100 mod 10))"
  using js_floor_rem_f64_div [of n 100 10] by simp

lemma rest_nat: "js_floor (js_rem (Fin (real n)) 100) = Fin (real (n mod 100))"
  using js_rem_gen [of n 100] by simp

lemma tens_nat: "n < 2 ^ 53 \<Longrightarrow> js_floor (f64_div (Fin (real n)) 10) = Fin (real (n div 10))"
  using js_floor_f64_div [of n 10] by simp

lemma units_nat: "js_rem (Fin (real n)) 10 = Fin (real (n mod 10))"
  using js_rem_gen [of n 10] by simp

section \<open>Properties of the digit mapper\<close>

lemma marathiToEnglish_map: "marathiToEnglish s = map (mapChar MARATHI_TO_ENGLISH) s"
  by (simp add: marathiToEnglish_def)

lemma englishToMarathi_map: "englishToMarathi s = map (mapChar ENGLISH_TO_MARATHI) s"
  by (simp add: englishToMarathi_def)

lemma m2e_char:
  "mapChar MARATHI_TO_ENGLISH c = (if isMarathiDigit c then c - 0x966 + 0x30 else c)"
proof (cases "isMarathiDigit c")
  case True
  then have "c \<in> {0x966, 0x967, 0x968, 0x969, 0x96A, 0x96B, 0x96C, 0x96D, 0x96E, 0x96F}"
    unfolding isMarathiDigit_def by (simp only: insert_iff empty_iff) arith
  then show ?thesis
    using True by (auto simp: mapChar_def MARATHI_TO_ENGLISH_def)
next
  case False
  then show ?thesis
    by (auto simp: mapChar_def MARATHI_TO_ENGLISH_def isMarathiDigit_def)
qed

lemma e2m_char:
  "mapChar ENGLISH_TO_MARATHI c = (if isAsciiDigit c then c - 0x30 + 0x966 else c)"
proof (cases "isAsciiDigit c")
  case True
  then have "c \<in> {0x30, 0x31, 0x32, 0x33, 0x34, 0x35, 0x36, 0x37, 0x38, 0x39}"
    unfolding isAsciiDigit_def by (simp only: insert_iff empty_iff) arith
  then show ?thesis
    using True by (auto simp: mapChar_def ENGLISH_TO_MARATHI_def)
next
  case False
  then show ?thesis
    by (auto simp: mapChar_def ENGLISH_TO_MARATHI_def isAsciiDigit_def)
qed

lemma m2e_idem_char:
  "mapChar MARATHI_TO_ENGLISH (mapChar MARATHI_TO_ENGLISH c) = mapChar MARATHI_TO_ENGLISH c"
  by (auto simp: m2e_char isMarathiDigit_def)

lemma e2m_idem_char:
  "mapChar ENGLISH_TO_MARATHI (mapChar ENGLISH_TO_MARATHI c) = mapChar ENGLISH_TO_MARATHI c"
  by (auto simp: e2m_char isAsciiDigit_def)

lemma e2m_m2e_e2m_char:
  "mapChar ENGLISH_TO_MARATHI (mapChar MARATHI_TO_ENGLISH (mapChar ENGLISH_TO_MARATHI c))
     = mapChar ENGLISH_TO_MARATHI c"
  by (auto simp: e2m_char m2e_char isAsciiDigit_def isMarathiDigit_def)

text \<open>
  C10. For every string of ASCII digits, converting to Devanagari digits, back to Latin
  digits and to Devanagari digits again gives the same as converting once; each of the
  two conversions is idempotent on every string; and each keeps the length of the text
  and leaves every character that is not a digit of its source script unchanged.
\<close>

theorem digit_roundtrip_idempotent:
  "((\<forall>c \<in> set s. isAsciiDigit c) \<longrightarrow>
      englishToMarathi (marathiToEnglish (englishToMarathi s)) = englishToMarathi s)
   \<and> marathiToEnglish (marathiToEnglish t) = marathiToEnglish t
   \<and> englishToMarathi (englishToMarathi t) = englishToMarathi t
   \<and> length (marathiToEnglish t) = length t
   \<and> length (englishToMarathi t) = length t
   \<and> (\<forall>i < length t. \<not> isMarathiDigit (t ! i) \<longrightarrow> marathiToEnglish t ! i = t ! i)
   \<and> (\<forall>i < length t. \<not> isAsciiDigit (t ! i) \<longrightarrow> englishToMarathi t ! i = t ! i)"
  by (simp add: marathiToEnglish_map englishToMarathi_map m2e_idem_char e2m_idem_char
      e2m_m2e_e2m_char)
    (simp add: m2e_char e2m_char)

theorem digit_roundtrip_idempotent_witness:
  "list_all isAsciiDigit (str ''2025'')
   \<and> englishToMarathi (marathiToEnglish (englishToMarathi (str ''2025'')))
       = [0x968, 0x966, 0x968, 0x96B]
   \<and> englishToMarathi (str ''2025'') = [0x968, 0x966, 0x968, 0x96B]
   \<and> marathiToEnglish (marathiToEnglish [0x41, 0x967, 0x2C, 0x35]) = str ''A1,5''
   \<and> englishToMarathi (englishToMarathi [0x41, 0x967, 0x2C, 0x35]) = [0x41, 0x967, 0x2C, 0x96B]
   \<and> \<not> isMarathiDigit ([0x41, 0x967, 0x2C, 0x35] ! 0)
   \<and> marathiToEnglish [0x41, 0x967, 0x2C, 0x35] ! 0 = 0x41
   \<and> \<not> isAsciiDigit ([0x41, 0x967, 0x2C, 0x35] ! 1)
   \<and> englishToMarathi [0x41, 0x967, 0x2C, 0x35] ! 1 = 0x967"
  using digit_roundtrip_idempotent [of "str ''2025''" "[0x41, 0x967, 0x2C, 0x35]"]
  by (simp add: str_def isAsciiDigit_def isMarathiDigit_def englishToMarathi_map
      marathiToEnglish_map e2m_char m2e_char)

section \<open>The wording on natural numbers\<close>

lemma truthy_nat: "truthy (Fin (real k)) = (k \<noteq> 0)"
  by (simp add: truthy_def)

lemma elemAt_nat: "k < length xs \<Longrightarrow> elemAt xs (Fin (real k)) = xs ! k"
  by (simp add: elemAt_def)

lemma len_a: "length numberToWords_a = 20"
  by (simp add: numberToWords_a_def)

lemma len_b: "length numberToWords_b = 10"
  by (simp add: numberToWords_b_def)

lemma inWords_nat: "k < 100 \<Longrightarrow> inWords (Fin (real k)) = spec_below100 k"
proof -
  assume k: "k < 100"
  have gt19: "js_gt (Fin (real k)) (Fin 19) = (\<not> k < 20)" by (auto simp: js_gt_def)
  have gt0: "js_gt (Fin (real k)) (Fin 0) = (0 < k)" by (simp add: js_gt_def)
  show ?thesis
  proof (cases "k < 20")
    case True
    have "elemAt numberToWords_a (Fin (real k)) = numberToWords_a ! k"
      using True by (simp add: elemAt_nat len_a)
    moreover have "numberToWords_a ! 0 = []" by (simp add: numberToWords_a_def str_def)
    ultimately show ?thesis using True
      unfolding inWords_def gt19 gt0 spec_below100_def by (cases "k = 0") simp_all
  next
    case False
    have "k div 10 < 10" using k by simp
    then have b: "elemAt numberToWords_b (Fin (real (k div 10))) = numberToWords_b ! (k div 10)"
      by (simp add: elemAt_nat len_b)
    have a: "elemAt numberToWords_a (Fin (real (k mod 10))) = numberToWords_a ! (k mod 10)"
      by (simp add: elemAt_nat len_a)
    have "k < 2 ^ 53" using k by simp
    then have t: "js_floor (f64_div (Fin (real k)) 10) = Fin (real (k div 10))"
      by (rule tens_nat)
    show ?thesis using False
      unfolding inWords_def gt19 t units_nat truthy_nat a b spec_below100_def by simp
  qed
qed

lemma numberToWords_nat: "numberToWords (Fin (real n)) = spec_numberToWords n"
proof (cases "n = 0 \<or> 999999999 < n")
  case True
  then show ?thesis
    by (auto simp: numberToWords_def spec_numberToWords_def isNaN_def js_gt_def)
next
  case False
  then have n: "n \<noteq> 0" "n \<le> 999999999" by auto
  have c: "n div 10000000 < 100" using n by simp
  have h: "elemAt numberToWords_a (Fin (real (n div 100 mod 10))) = numberToWords_a ! (n div 100 mod 10)"
    by (simp add: elemAt_nat len_a)
  have g: "\<not> js_gt (Fin (real n)) (Fin 999999999)" using n by (simp add: js_gt_def)
  have z: "Fin (real n) \<noteq> Fin 0" using n by simp
  have i1: "inWords (Fin (real (n div 10000000))) = spec_below100 (n div 10000000)"
    by (rule inWords_nat [OF c])
  have i2: "inWords (Fin (real (n div 100000 mod 100))) = spec_below100 (n div 100000 mod 100)"
    by (rule inWords_nat) simp
  have i3: "inWords (Fin (real (n div 1000 mod 100))) = spec_below100 (n div 1000 mod 100)"
    by (rule inWords_nat) simp
  have i4: "inWords (Fin (real (n mod 100))) = spec_below100 (n mod 100)"
    by (rule inWords_nat) simp
  have n53: "n < 2 ^ 53" using n by simp
  note gr = crore_nat [OF n53] lakh_nat [OF n53] thousand_nat [OF n53] hundred_nat [OF n53]
  have step: "\<And>c r x. (if c then r @ x else r) = r @ (if c then x else ([]::jsstring))"
    by simp
  have neg: "\<And>c (x::jsstring) y. (if \<not> c then x else y) = (if c then y else x)"
    by simp
  have "numberToWords (Fin (real n)) = trim (spec_groups n
                 @ (if n mod 100 = 0 then []
                    else (if spec_groups n = [] then [] else str ''and '')
                           @ spec_below100 (n mod 100) @ str '' ''))"
    unfolding numberToWords_def Let_def gr rest_nat
      truthy_nat h i1 i2 i3 i4 isNaN_def spec_groups_def step neg
    using z g by (cases "n mod 100 = 0")
      (simp_all only: if_True if_False number.distinct append_Nil append_Nil2 append_assoc
         step neg simp_thms)
  then show ?thesis using n by (simp add: spec_numberToWords_def)
qed

section \<open>Parsing never fails\<close>

lemma parseFloat_empty: "parseFloat [] = NaN"
  by (simp add: parseFloat_def str_def)

lemma parse_example_marathi:
  "parseMarathiNumber [0x967, 0x968, 0x2C, 0x969, 0x96A, 0x96B, 0x2E, 0x96C, 0x96D]
     = Fin (1234567 / 100)"
  by (simp add: parseMarathiNumber_def trim_def isWhiteSpace_def marathiToEnglish_map m2e_char
      isMarathiDigit_def parseFloat_def str_def isAsciiDigit_def digitsValue_def
      exponentPart_def pow10_def isNaN_def Let_def)

lemma parse_example_abc: "parseMarathiNumber (str ''abc'') = Fin 0"
  by (simp add: parseMarathiNumber_def trim_def isWhiteSpace_def marathiToEnglish_map m2e_char
      isMarathiDigit_def parseFloat_def str_def isAsciiDigit_def isNaN_def Let_def)

text \<open>
  C9. \<open>parseMarathiNumber\<close> returns a number for every text and never NaN: after
  trimming it maps the Devanagari digits to ASCII, removes the commas and parses a
  decimal with \<open>parseFloat\<close>, and it returns 0 where that gives NaN. The Devanagari
  text for 12,345.67 parses to 12345.67, and "abc" and the empty text parse to 0.
\<close>

theorem parseNumber_total:
  "parseMarathiNumber t \<noteq> NaN
   \<and> parseMarathiNumber t =
       (if parseFloat (filter (\<lambda>c. c \<noteq> 0x2C) (marathiToEnglish (trim t))) = NaN then Fin 0
        else parseFloat (filter (\<lambda>c. c \<noteq> 0x2C) (marathiToEnglish (trim t))))
   \<and> parseMarathiNumber [0x967, 0x968, 0x2C, 0x969, 0x96A, 0x96B, 0x2E, 0x96C, 0x96D]
       = Fin (1234567 / 100)
   \<and> parseMarathiNumber (str ''abc'') = Fin 0
   \<and> parseMarathiNumber [] = Fin 0"
proof -
  have a: "parseMarathiNumber t \<noteq> NaN"
    by (simp add: parseMarathiNumber_def isNaN_def Let_def)
  have b: "parseMarathiNumber t =
       (if parseFloat (filter (\<lambda>c. c \<noteq> 0x2C) (marathiToEnglish (trim t))) = NaN then Fin 0
        else parseFloat (filter (\<lambda>c. c \<noteq> 0x2C) (marathiToEnglish (trim t))))"
  proof (cases "t = []")
    case True
    then show ?thesis
      by (simp add: parseMarathiNumber_def trim_def marathiToEnglish_def parseFloat_empty)
  next
    case False
    then show ?thesis
      by (simp add: parseMarathiNumber_def isNaN_def Let_def)
  qed
  have c: "parseMarathiNumber [] = Fin 0"
    by (simp add: parseMarathiNumber_def)
  show ?thesis
    using a b c parse_example_marathi parse_example_abc by blast
qed

section \<open>The sentinel and the first word\<close>

lemma wordStart_append: "wordStart w \<Longrightarrow> wordStart (w @ v)"
  by (simp add: wordStart_def)

lemma a_wordStart: "0 < k \<Longrightarrow> k < 20 \<Longrightarrow> wordStart (numberToWords_a ! k)"
proof -
  assume k: "0 < k" "k < 20"
  have "list_all wordStart (tl numberToWords_a)"
    by (simp add: numberToWords_a_def wordStart_def str_def)
  then have "\<forall>i < length (tl numberToWords_a). wordStart (tl numberToWords_a ! i)"
    by (simp only: list_all_length)
  moreover have "k - 1 < length (tl numberToWords_a)" using k by (simp add: len_a)
  ultimately have "wordStart (tl numberToWords_a ! (k - 1))" by blast
  then show ?thesis using k by (simp add: nth_tl len_a)
qed

lemma b_wordStart: "2 \<le> k \<Longrightarrow> k < 10 \<Longrightarrow> wordStart (numberToWords_b ! k)"
proof -
  assume k: "2 \<le> k" "k < 10"
  then obtain j where j: "k = 2 + j" using le_Suc_ex by blast
  have "list_all wordStart (drop 2 numberToWords_b)"
    by (simp add: numberToWords_b_def wordStart_def str_def)
  then have "\<forall>i < length (drop 2 numberToWords_b). wordStart (drop 2 numberToWords_b ! i)"
    by (simp only: list_all_length)
  moreover have "j < length (drop 2 numberToWords_b)" using k j by (simp add: len_b)
  ultimately have "wordStart (drop 2 numberToWords_b ! j)" by blast
  then show ?thesis unfolding j by (simp add: len_b)
qed

lemma below100_wordStart: "0 < k \<Longrightarrow> k < 100 \<Longrightarrow> wordStart (spec_below100 k)"
proof (cases "k < 20")
  case True
  assume "0 < k"
  then show ?thesis using True by (simp add: spec_below100_def a_wordStart)
next
  case False
  assume "k < 100"
  then have "2 \<le> k div 10" "k div 10 < 10" using False by auto
  then have "wordStart (numberToWords_b ! (k div 10))" by (rule b_wordStart)
  then show ?thesis using False by (simp add: spec_below100_def wordStart_append)
qed

lemma groups_empty:
  "(spec_groups n = []) =
     (n div 10000000 = 0 \<and> n div 100000 mod 100 = 0 \<and> n div 1000 mod 100 = 0
      \<and> n div 100 mod 10 = 0)"
  by (simp add: spec_groups_def str_def)

lemma groups_wordStart:
  assumes "n \<le> 999999999" "spec_groups n \<noteq> []"
  shows "wordStart (spec_groups n)"
proof -
  have c: "n div 10000000 \<noteq> 0 \<Longrightarrow> wordStart (spec_below100 (n div 10000000))"
    using assms(1) by (intro below100_wordStart) simp_all
  have l: "n div 100000 mod 100 \<noteq> 0 \<Longrightarrow> wordStart (spec_below100 (n div 100000 mod 100))"
    by (intro below100_wordStart) simp_all
  have t: "n div 1000 mod 100 \<noteq> 0 \<Longrightarrow> wordStart (spec_below100 (n div 1000 mod 100))"
    by (intro below100_wordStart) simp_all
  have h: "n div 100 mod 10 \<noteq> 0 \<Longrightarrow> wordStart (numberToWords_a ! (n div 100 mod 10))"
    by (intro a_wordStart) (simp, simp add: less_trans [OF mod_less_divisor])
  show ?thesis
    using assms(2) c l t h unfolding groups_empty
    by (auto simp: spec_groups_def wordStart_append)
qed

lemma wordStart_not_space: "wordStart w \<Longrightarrow> \<not> isWhiteSpace (hd w)"
  by (auto simp: wordStart_def str_def isWhiteSpace_def)

lemma trim_wordStart: "wordStart w \<Longrightarrow> wordStart (trim w)"
proof -
  assume w: "wordStart w"
  then obtain x xs where xs: "w = x # xs" by (cases w) (auto simp: wordStart_def)
  have nx: "\<not> isWhiteSpace x" using wordStart_not_space [OF w] xs by simp
  have "rev (dropWhile isWhiteSpace (rev xs @ [x])) = x # rev (dropWhile isWhiteSpace (rev xs))
        \<or> rev (dropWhile isWhiteSpace (rev xs @ [x])) = [x]"
    using nx by (simp add: dropWhile_append)
  then have "hd (trim w) = x \<and> trim w \<noteq> []"
    using nx xs by (auto simp: trim_def)
  then show ?thesis using w xs by (simp add: wordStart_def)
qed

lemma all_groups_zero:
  fixes n :: nat
  assumes "n div 10000000 = 0" "n div 100000 mod 100 = 0" "n div 1000 mod 100 = 0"
    "n div 100 mod 10 = 0" "n mod 100 = 0"
  shows "n = 0"
proof -
  have 1: "n < 100000 * 100" using assms(1) by (simp add: div_eq_0_iff)
  have "n div 100000 < 100" using 1 by (simp only: less_mult_imp_div_less mult.commute)
  then have "n div 100000 = 0" using assms(2) by simp
  then have 2: "n < 1000 * 100" by (simp add: div_eq_0_iff)
  have "n div 1000 < 100" using 2 by (simp only: less_mult_imp_div_less mult.commute)
  then have "n div 1000 = 0" using assms(3) by simp
  then have 3: "n < 100 * 10" by (simp add: div_eq_0_iff)
  have "n div 100 < 10" using 3 by (simp only: less_mult_imp_div_less mult.commute)
  then have "n div 100 = 0" using assms(4) by simp
  then have "n < 100" by (simp add: div_eq_0_iff)
  then show ?thesis using assms(5) by simp
qed

lemma spec_words_unfold:
  assumes "0 < n" "n \<le> 999999999"
  shows "spec_numberToWords n =
     trim (spec_groups n
           @ (if n mod 100 = 0 then []
              else (if spec_groups n = [] then [] else str ''and '')
                     @ spec_below100 (n mod 100) @ str '' ''))"
proof -
  have "n \<noteq> 0" "\<not> 999999999 < n" using assms by simp_all
  then show ?thesis unfolding spec_numberToWords_def by (simp only: if_False)
qed

lemma spec_words_wordStart:
  assumes "0 < n" "n \<le> 999999999"
  shows "wordStart (spec_numberToWords n)"
proof (cases "spec_groups n = []")
  case True
  then have g: "n div 10000000 = 0" "n div 100000 mod 100 = 0" "n div 1000 mod 100 = 0"
    "n div 100 mod 10 = 0"
    unfolding groups_empty by simp_all
  have r: "n mod 100 \<noteq> 0"
  proof
    assume "n mod 100 = 0"
    with g have "n = 0" by (rule all_groups_zero)
    then show False using assms(1) by simp
  qed
  have "0 < n mod 100" "n mod 100 < 100" using r by simp_all
  then have "wordStart (spec_below100 (n mod 100))"
    by (rule below100_wordStart)
  then have "wordStart (trim (spec_below100 (n mod 100) @ str '' ''))"
    by (intro trim_wordStart wordStart_append)
  moreover have "spec_numberToWords n = trim (spec_below100 (n mod 100) @ str '' '')"
    unfolding spec_words_unfold [OF assms] using True r
    by (simp only: if_True if_False append_Nil simp_thms)
  ultimately show ?thesis by (simp only:)
next
  case False
  then have "wordStart (spec_groups n)" using assms(2) by (intro groups_wordStart)
  then have "wordStart (trim (spec_groups n
                 @ (if n mod 100 = 0 then []
                    else (if spec_groups n = [] then [] else str ''and '')
                           @ spec_below100 (n mod 100) @ str '' '')))"
    by (intro trim_wordStart wordStart_append)
  then show ?thesis by (simp only: spec_words_unfold [OF assms])
qed

lemma sentinel_not_wordStart: "wordStart w \<Longrightarrow> take 16 w \<noteq> str ''Amount too large''"
proof
  assume w: "wordStart w" and t: "take 16 w = str ''Amount too large''"
  have "hd (take 16 w) = hd w" using w by (cases w) (simp_all add: wordStart_def)
  then have "hd w = hd (str ''Amount too large'')" using t by simp
  then show False using w by (simp add: wordStart_def str_def)
qed

lemma spec_words_nonempty: "spec_numberToWords n \<noteq> []"
proof (cases "n = 0 \<or> 999999999 < n")
  case True
  then show ?thesis by (auto simp: spec_numberToWords_def str_def)
next
  case False
  then have "wordStart (spec_numberToWords n)" by (intro spec_words_wordStart) auto
  then show ?thesis by (simp add: wordStart_def)
qed

lemma spec_words_sentinel:
  "(spec_numberToWords n = str ''Amount too large'') = (999999999 < n)"
proof (cases "n = 0")
  case True
  then show ?thesis by (simp add: spec_numberToWords_def str_def)
next
  case False
  show ?thesis
  proof (cases "999999999 < n")
    case True
    then show ?thesis using False by (simp add: spec_numberToWords_def)
  next
    case b: False
    have "wordStart (spec_numberToWords n)" using False b by (intro spec_words_wordStart) auto
    then have "take 16 (spec_numberToWords n) \<noteq> str ''Amount too large''"
      by (rule sentinel_not_wordStart)
    then have "spec_numberToWords n \<noteq> str ''Amount too large''"
      by (auto simp: str_def)
    then show ?thesis using b by simp
  qed
qed

lemma amountRupees_nonneg: "0 \<le> r \<Longrightarrow> amountRupees (Fin r) = Fin (real (nat \<lfloor>r\<rfloor>))"
  by (simp add: amountRupees_def)

section \<open>Amounts in words\<close>

subsection \<open>The paise of an amount\<close>

lemma amountPaise_eval:
  "amountPaise (Fin r) = js_round (f64 (js_mul (f64 (Fin (r - of_int \<lfloor>r\<rfloor>))) (Fin 100)))"
  by (simp add: amountPaise_def amountRupees_def f64_sub_def f64_mul_def js_sub_def)

lemma amountPaise_nonneg:
  assumes "0 \<le> r"
  shows "\<exists>p. p \<le> 100 \<and> amountPaise (Fin r) = Fin (real p)"
proof -
  have f: "0 \<le> r - of_int \<lfloor>r\<rfloor>" "r - of_int \<lfloor>r\<rfloor> \<le> real 1" by simp_all linarith
  obtain y where y: "toBinary64 (r - of_int \<lfloor>r\<rfloor>) = Fin y" "0 \<le> y" "y \<le> real 1"
    using toBinary64_le_whole [OF f] by auto
  have g: "0 \<le> y * 100" "y * 100 \<le> real 100" using y(2,3) by simp_all
  obtain z where z: "toBinary64 (y * 100) = Fin z" "0 \<le> z" "z \<le> real 100"
    using toBinary64_le_whole [OF g] by auto
  define p where "p = nat \<lfloor>z + 1 / 2\<rfloor>"
  have "0 \<le> \<lfloor>z + 1 / 2\<rfloor>" using z(2) by simp
  then have pz: "of_int \<lfloor>z + 1 / 2\<rfloor> = real p" by (simp add: p_def)
  have "\<lfloor>z + 1 / 2\<rfloor> \<le> \<lfloor>(100::real) + 1 / 2\<rfloor>"
    using z(3) by (intro floor_mono) simp
  moreover have "\<lfloor>(100::real) + 1 / 2\<rfloor> = 100" by simp
  ultimately have "p \<le> 100" unfolding p_def by linarith
  have "amountPaise (Fin r) = Fin (real p)"
    by (simp add: amountPaise_def amountRupees_def f64_sub_def f64_mul_def js_sub_def y(1) z(1)
        pz)
  then show ?thesis using \<open>p \<le> 100\<close> by blast
qed

lemma paise_two_decimals:
  assumes "k div 100 \<le> 999999999"
  shows "\<exists>a. toBinary64 (real k / 100) = Fin a \<and> \<lfloor>a\<rfloor> = int (k div 100)
           \<and> amountPaise (Fin a) = Fin (real (k mod 100))"
proof (cases "k mod 100 = 0")
  case True
  define m where "m = k div 100"
  have "k = 100 * m" using True unfolding m_def by auto
  then have x: "real k / 100 = of_int (int m)" by simp
  have "\<bar>int m\<bar> < 2 ^ 53" using assms unfolding m_def by simp
  then have a: "toBinary64 (real k / 100) = Fin (of_int (int m))"
    unfolding x by (rule toBinary64_whole)
  have "amountPaise (Fin (of_int (int m))) = Fin 0"
    by (simp add: amountPaise_def amountRupees_def f64_sub_def f64_mul_def js_sub_def
        toBinary64_def)
  then have "amountPaise (Fin (of_int (int m))) = Fin (real (k mod 100))" using True by simp
  moreover have "\<lfloor>(of_int (int m) :: real)\<rfloor> = int (k div 100)" by (simp add: m_def)
  ultimately show ?thesis using a by blast
next
  case False
  define m where "m = k div 100"
  define c where "c = k mod 100"
  define x where "x = real k / 100"
  have c: "1 \<le> c" "c \<le> 99" using False unfolding c_def by simp_all
  have m: "m \<le> 999999999" using assms by (simp add: m_def)
  have "real k = real (m * 100 + c)" unfolding m_def c_def by simp
  then have x: "x = real m + real c / 100" unfolding x_def by simp
  have cr: "1 \<le> real c" "real c \<le> 99" using c by simp_all
  have mr: "0 \<le> real m" "real m \<le> 999999999" using m by simp_all
  have x1: "1 / 128 \<le> x" "x \<le> 10 ^ 9" using cr mr unfolding x by simp_all
  obtain a where a: "toBinary64 x = Fin a" "\<bar>a - x\<bar> \<le> 10 ^ 9 / 10 ^ 15"
    using toBinary64_near [OF x1 order_refl] by blast
  have "\<bar>a - x\<bar> \<le> 1 / 1000000" using a(2) by simp
  then have a1: "real m + real c / 100 - 1 / 1000000 \<le> a"
    "a \<le> real m + real c / 100 + 1 / 1000000"
    unfolding x by linarith+
  have fa: "\<lfloor>a\<rfloor> = int m"
  proof (rule floor_unique)
    show "of_int (int m) \<le> a" using a1(1) cr by simp
    show "a < of_int (int m) + 1" using a1(2) cr by simp
  qed
  define f0 where "f0 = a - real m"
  have f0: "real c / 100 - 1 / 1000000 \<le> f0" "f0 \<le> real c / 100 + 1 / 1000000"
    using a1 unfolding f0_def by linarith+
  have f1: "1 / 128 \<le> f0" "f0 \<le> 1" using f0 cr by linarith+
  obtain f where f: "toBinary64 f0 = Fin f" "\<bar>f - f0\<bar> \<le> 1 / 10 ^ 15"
    using toBinary64_near [OF f1] by auto
  have "\<bar>f - f0\<bar> \<le> 1 / 1000000" using f(2) by simp
  then have f2: "real c / 100 - 2 / 1000000 \<le> f" "f \<le> real c / 100 + 2 / 1000000"
    using f0 by linarith+
  define g0 where "g0 = f * 100"
  have g0: "real c - 2 / 10000 \<le> g0" "g0 \<le> real c + 2 / 10000"
    using f2 unfolding g0_def by linarith+
  have g1: "1 / 128 \<le> g0" "g0 \<le> 100" using g0 cr by linarith+
  obtain g where g: "toBinary64 g0 = Fin g" "\<bar>g - g0\<bar> \<le> 100 / 10 ^ 15"
    using toBinary64_near [OF g1] by auto
  have "\<bar>g - g0\<bar> \<le> 1 / 10000" using g(2) by simp
  then have g2: "real c - 1 / 1000 \<le> g" "g \<le> real c + 1 / 1000"
    using g0 by linarith+
  have rg: "\<lfloor>g + 1 / 2\<rfloor> = int c"
  proof (rule floor_unique)
    show "of_int (int c) \<le> g + 1 / 2" using g2(1) by simp
    show "g + 1 / 2 < of_int (int c) + 1" using g2(2) by simp
  qed
  have "amountPaise (Fin a) = Fin (real c)"
    unfolding amountPaise_def amountRupees_def f64_sub_def f64_mul_def js_sub_def
    by (simp add: fa f0_def [symmetric] f(1) g0_def [symmetric] g(1) rg)
  then show ?thesis using a(1) fa unfolding x_def m_def c_def by blast
qed

text \<open>
  The binary64 number next to 1.005 lies below it and has 0 paise; the one next to
  0.999 has 100 paise.
\<close>

lemma paise_example_1_005: "amountPaise (toBinary64 (1005 / 1000)) = Fin 0"
proof -
  have "toBinary64 (1005 / 1000) = Fin (1131529406376837 / 1125899906842624)"
    by (simp add: f64_eval)
  then show ?thesis by (simp add: amountPaise_eval f64_eval)
qed

lemma binary64_0_999: "toBinary64 (999 / 1000) = Fin (8998192055486251 / 9007199254740992)"
  by (simp add: f64_eval)

lemma paise_example_0_999:
  "amountPaise (Fin (8998192055486251 / 9007199254740992)) = Fin (real 100)"
  by (simp add: amountPaise_eval f64_eval)

subsection \<open>The sentence\<close>

lemma amount_words_paise:
  assumes "0 \<le> r" "amountPaise (Fin r) = Fin (real p)"
  shows "amountToWordsWithPaise (Fin r) = spec_amountToWords (nat \<lfloor>r\<rfloor>) p"
proof -
  have ru: "numberToWords (amountRupees (Fin r)) = spec_numberToWords (nat \<lfloor>r\<rfloor>)"
    by (simp only: amountRupees_nonneg [OF assms(1)] numberToWords_nat)
  have gt: "js_gt (Fin (real p)) (Fin 0) = (0 < p)"
    by (simp add: js_gt_def)
  show ?thesis
    unfolding amountToWordsWithPaise_def Let_def ru assms(2) gt numberToWords_nat
      spec_amountToWords_def
    by (simp add: spec_words_nonempty)
qed

lemma amount_words_two_decimals:
  assumes "k div 100 \<le> 999999999"
  shows "amountToWordsWithPaise (toBinary64 (real k / 100))
           = spec_amountToWords (k div 100) (k mod 100)"
proof -
  obtain a where a: "toBinary64 (real k / 100) = Fin a" "\<lfloor>a\<rfloor> = int (k div 100)"
    "amountPaise (Fin a) = Fin (real (k mod 100))"
    using paise_two_decimals [OF assms] by blast
  have "0 \<le> \<lfloor>a\<rfloor>" unfolding a(2) by simp
  then have "0 \<le> a" by (simp only: zero_le_floor)
  then have "amountToWordsWithPaise (Fin a) = spec_amountToWords (nat \<lfloor>a\<rfloor>) (k mod 100)"
    using a(3) by (rule amount_words_paise)
  then show ?thesis unfolding a(1) a(2) by simp
qed

lemmas spec_eval = spec_amountToWords_def spec_numberToWords_def spec_groups_def
  spec_below100_def numberToWords_a_def numberToWords_b_def trim_def isWhiteSpace_def str_def

lemma words_example_1234_50:
  "amountToWordsWithPaise (Fin (2469 / 2))
     = str ''One Thousand Two Hundred and Thirty Four Rupees and Fifty Paise only''"
proof -
  have "amountPaise (Fin (2469 / 2)) = Fin (real 50)"
    by (simp add: amountPaise_eval f64_eval)
  then have "amountToWordsWithPaise (Fin (2469 / 2)) = spec_amountToWords 1234 50"
    using amount_words_paise [of "2469 / 2" 50] by simp
  also have "\<dots> = str ''One Thousand Two Hundred and Thirty Four Rupees and Fifty Paise only''"
    by (simp add: spec_eval)
  finally show ?thesis .
qed

lemma words_example_crore:
  "amountToWordsWithPaise (toBinary64 (1023456789 / 100))
     = str ''One Crore Two Lakh Thirty Four Thousand Five Hundred and Sixty Seven Rupees and Eighty Nine Paise only''"
proof -
  have "amountToWordsWithPaise (toBinary64 (1023456789 / 100))
          = spec_amountToWords 10234567 89"
    using amount_words_two_decimals [of 1023456789] by simp
  also have "\<dots> = str ''One Crore Two Lakh Thirty Four Thousand Five Hundred and Sixty Seven Rupees and Eighty Nine Paise only''"
    by (simp add: spec_eval)
  finally show ?thesis .
qed

lemma words_example_ceiling:
  "amountToWordsWithPaise (Fin 1000000000) = str ''Amount too large Rupees only''"
proof -
  have "amountPaise (Fin 1000000000) = Fin (real 0)"
    by (simp add: amountPaise_eval f64_eval)
  then have "amountToWordsWithPaise (Fin 1000000000) = spec_amountToWords 1000000000 0"
    using amount_words_paise [of 1000000000 0] by simp
  also have "\<dots> = str ''Amount too large Rupees only''"
    by (simp add: spec_eval)
  finally show ?thesis .
qed

lemma words_example_below_ceiling:
  "amountToWordsWithPaise (Fin (1999999999 / 2))
     = str ''Ninety Nine Crore Ninety Nine Lakh Ninety Nine Thousand Nine Hundred and Ninety Nine Rupees and Fifty Paise only''"
proof -
  have "amountPaise (Fin (1999999999 / 2)) = Fin (real 50)"
    by (simp add: amountPaise_eval f64_eval)
  then have "amountToWordsWithPaise (Fin (1999999999 / 2)) = spec_amountToWords 999999999 50"
    using amount_words_paise [of "1999999999 / 2" 50] by simp
  also have "\<dots> = str ''Ninety Nine Crore Ninety Nine Lakh Ninety Nine Thousand Nine Hundred and Ninety Nine Rupees and Fifty Paise only''"
    by (simp add: spec_eval)
  finally show ?thesis .
qed

lemma words_example_carry:
  "amountToWordsWithPaise (toBinary64 (999 / 1000))
     = str ''Zero Rupees and One Hundred Paise only''"
proof -
  have "amountToWordsWithPaise (Fin (8998192055486251 / 9007199254740992))
          = spec_amountToWords 0 100"
    using amount_words_paise [of "8998192055486251 / 9007199254740992" 100]
      paise_example_0_999
    by simp
  also have "\<dots> = str ''Zero Rupees and One Hundred Paise only''"
    by (simp add: spec_eval)
  finally show ?thesis unfolding binary64_0_999 .
qed

lemma nat_floor_le: "r \<le> real k \<Longrightarrow> nat \<lfloor>r\<rfloor> \<le> k"
proof -
  assume "r \<le> real k"
  then have "\<lfloor>r\<rfloor> \<le> \<lfloor>real k\<rfloor>" by (rule floor_mono)
  then have "\<lfloor>r\<rfloor> \<le> int k" by simp
  then show ?thesis by linarith
qed

lemma rupees_below_ceiling: "(r::real) \<le> 999999999 \<Longrightarrow> nat \<lfloor>r\<rfloor> \<le> 999999999"
  using nat_floor_le [of r 999999999] by simp

lemma amount_words_no_sentinel:
  assumes "0 \<le> r" "r \<le> 999999999"
  shows "take 16 (amountToWordsWithPaise (Fin r)) \<noteq> str ''Amount too large''"
proof
  assume t: "take 16 (amountToWordsWithPaise (Fin r)) = str ''Amount too large''"
  define n where "n = nat \<lfloor>r\<rfloor>"
  define w where "w = spec_numberToWords n"
  have n: "n \<le> 999999999" unfolding n_def using assms(2) by (rule rupees_below_ceiling)
  have hw: "w \<noteq> [] \<and> hd w \<noteq> 0x41"
  proof (cases "n = 0")
    case True
    then show ?thesis by (simp add: w_def spec_numberToWords_def str_def)
  next
    case False
    then have "wordStart w" unfolding w_def using n by (intro spec_words_wordStart) simp_all
    then show ?thesis by (auto simp: wordStart_def str_def)
  qed
  obtain p where p: "amountPaise (Fin r) = Fin (real p)"
    using amountPaise_nonneg [OF assms(1)] by blast
  obtain v where v: "amountToWordsWithPaise (Fin r) = w @ v"
    unfolding amount_words_paise [OF assms(1) p] spec_amountToWords_def n_def w_def by blast
  have "hd (take 16 (w @ v)) = hd w" using hw by (cases w) simp_all
  then have "hd w = hd (str ''Amount too large'')" using t v by simp
  then show False using hw by (simp add: str_def)
qed

text \<open>
  C7 (amended). The ceiling is tested on the rupee part: for every amount r that is
  not negative, \<open>numberToWords\<close> of the rupee part is exactly "Amount too large" if and
  only if the rupee part \<open>floor r\<close> is greater than 999999999, and it does not expand
  the number then. For r in [0, 999999999] neither the rupee part's words nor the
  sentence of \<open>amountToWordsWithPaise\<close> is the sentinel, and the sentence does not
  begin with it.
\<close>

theorem words_ceiling:
  "(0 \<le> r \<longrightarrow>
      (numberToWords (amountRupees (Fin r)) = str ''Amount too large'') = (999999999 < \<lfloor>r\<rfloor>))
   \<and> (0 \<le> r \<and> r \<le> 999999999 \<longrightarrow>
        numberToWords (amountRupees (Fin r)) \<noteq> str ''Amount too large''
        \<and> amountToWordsWithPaise (Fin r) \<noteq> str ''Amount too large''
        \<and> take 16 (amountToWordsWithPaise (Fin r)) \<noteq> str ''Amount too large'')"
proof (intro conjI impI)
  assume r: "0 \<le> r"
  have "numberToWords (amountRupees (Fin r)) = spec_numberToWords (nat \<lfloor>r\<rfloor>)"
    by (simp only: amountRupees_nonneg [OF r] numberToWords_nat)
  moreover have "(999999999 < nat \<lfloor>r\<rfloor>) = (999999999 < \<lfloor>r\<rfloor>)" by linarith
  ultimately show
    "(numberToWords (amountRupees (Fin r)) = str ''Amount too large'') = (999999999 < \<lfloor>r\<rfloor>)"
    by (simp only: spec_words_sentinel)
next
  assume r: "0 \<le> r \<and> r \<le> 999999999"
  then have "nat \<lfloor>r\<rfloor> \<le> 999999999" by (intro rupees_below_ceiling) simp
  then have f: "\<not> 999999999 < nat \<lfloor>r\<rfloor>" by (simp only: not_less)
  have "numberToWords (amountRupees (Fin r)) = spec_numberToWords (nat \<lfloor>r\<rfloor>)"
    using r by (simp only: amountRupees_nonneg numberToWords_nat)
  then show "numberToWords (amountRupees (Fin r)) \<noteq> str ''Amount too large''"
    using f by (simp only: spec_words_sentinel) simp
next
  assume r: "0 \<le> r \<and> r \<le> 999999999"
  then have "take 16 (amountToWordsWithPaise (Fin r)) \<noteq> str ''Amount too large''"
    by (intro amount_words_no_sentinel) simp_all
  then show "amountToWordsWithPaise (Fin r) \<noteq> str ''Amount too large''"
    by (auto simp: str_def)
next
  assume r: "0 \<le> r \<and> r \<le> 999999999"
  then show "take 16 (amountToWordsWithPaise (Fin r)) \<noteq> str ''Amount too large''"
    by (intro amount_words_no_sentinel) simp_all
qed

theorem words_ceiling_witness:
  "numberToWords (amountRupees (Fin (2469 / 2))) \<noteq> str ''Amount too large''
   \<and> take 16 (amountToWordsWithPaise (Fin (2469 / 2))) \<noteq> str ''Amount too large''
   \<and> numberToWords (amountRupees (Fin (2000000001 / 2))) = str ''Amount too large''"
  using words_ceiling [of "2469 / 2"] words_ceiling [of "2000000001 / 2"] by simp

theorem words_ceiling_counterexample:
  "(999999999::real) < 1000000000
   \<and> amountToWordsWithPaise (Fin 1000000000) = str ''Amount too large Rupees only''
   \<and> amountToWordsWithPaise (Fin 1000000000) \<noteq> str ''Amount too large''
   \<and> (999999999::real) < 1999999999 / 2
   \<and> amountToWordsWithPaise (Fin (1999999999 / 2)) \<noteq> str ''Amount too large''"
  by (simp add: words_example_ceiling words_example_below_ceiling) (simp add: str_def)

lemma words_ends_only: "\<exists>w. amountToWordsWithPaise amount = w @ str '' only''"
  unfolding amountToWordsWithPaise_def Let_def by blast


text \<open>
  A negative rupee part: every group reads as -1, which is truthy, has no words and
  is no index of the array of number words.
\<close>

lemma words_negative_rupee:
  "numberToWords (Fin (- 1)) = str ''Crore  Lakh  Thousand undefined Hundred and''"
proof -
  have c: "js_floor (f64_div (Fin (- 1)) 10000000) = Fin (- 1)"
    by (simp add: f64_eval)
  have l: "js_floor (js_rem (f64_div (Fin (- 1)) 100000) 100) = Fin (- 1)"
    by (simp add: f64_eval trunc_def ceiling_def)
  have t: "js_floor (js_rem (f64_div (Fin (- 1)) 1000) 100) = Fin (- 1)"
    by (simp add: f64_eval trunc_def ceiling_def)
  have h: "js_floor (js_rem (f64_div (Fin (- 1)) 100) 10) = Fin (- 1)"
    by (simp add: f64_eval trunc_def ceiling_def)
  have r: "js_floor (js_rem (Fin (- 1)) 100) = Fin (- 1)"
    by (simp add: trunc_def ceiling_def)
  have w: "inWords (Fin (- 1)) = []" by (simp add: inWords_def js_gt_def)
  have a: "elemAt numberToWords_a (Fin (- 1)) = str ''undefined''" by (simp add: elemAt_def)
  have y: "truthy (Fin (- 1))" by (simp add: truthy_def)
  have g: "\<not> js_gt (Fin (- 1)) (Fin 999999999)" by (simp add: js_gt_def)
  show ?thesis
    unfolding numberToWords_def Let_def c l t h r w a
    using y g by (simp add: isNaN_def trim_def isWhiteSpace_def str_def)
qed

lemma words_example_negative:
  "amountToWordsWithPaise (Fin (- 1 / 2))
     = str ''Crore  Lakh  Thousand undefined Hundred and Rupees and Fifty Paise only''"
proof -
  have r: "amountRupees (Fin (- 1 / 2)) = Fin (- 1)" by (simp add: amountRupees_def)
  have p: "amountPaise (Fin (- 1 / 2)) = Fin 50" by (simp add: amountPaise_eval f64_eval)
  have f: "numberToWords (Fin 50) = str ''Fifty''"
    using numberToWords_nat [of 50] by (simp add: spec_eval)
  show ?thesis
    unfolding amountToWordsWithPaise_def Let_def r p f words_negative_rupee
    by (simp add: js_gt_def str_def)
qed

lemma binary64_1_25: "isBinary64 (5 / 4)"
  by (simp add: isBinary64_def f64_eval)

lemma amount_words_general:
  assumes "0 \<le> r"
  shows "\<exists>p. p \<le> 100 \<and> amountPaise (Fin r) = Fin (real p)
           \<and> amountToWordsWithPaise (Fin r) = spec_amountToWords (nat \<lfloor>r\<rfloor>) p"
proof -
  obtain p where p: "p \<le> 100" "amountPaise (Fin r) = Fin (real p)"
    using amountPaise_nonneg [OF assms] by blast
  then show ?thesis using amount_words_paise [OF assms p(2)] by blast
qed

text \<open>
  C8 (amended). For every binary64 amount r that is not negative and has a rupee part
  \<open>floor r\<close> of at most 999999999, the sentence of \<open>amountToWordsWithPaise\<close> is the
  wording of the rupee part, highest group first (Crore, Lakh, Thousand, Hundred, then
  the remainder under 100), followed by "Rupees", by "and", the paise words and
  "Paise" when the paise are positive, and by "only". For the binary64 number of an
  amount of at most two decimals, \<open>k / 100\<close>, the rupee part is \<open>k div 100\<close> and the
  paise are \<open>k mod 100\<close>. The sentence ends with "only" for every argument. For
  1234.50 it is "One Thousand Two Hundred and Thirty Four Rupees and Fifty Paise
  only".
\<close>

theorem amount_words_wording:
  "(isBinary64 r \<and> 0 \<le> r \<and> \<lfloor>r\<rfloor> \<le> 999999999 \<longrightarrow>
      (\<exists>p. p \<le> 100 \<and> amountPaise (Fin r) = Fin (real p)
         \<and> amountToWordsWithPaise (Fin r) = spec_amountToWords (nat \<lfloor>r\<rfloor>) p))
   \<and> (k div 100 \<le> 999999999 \<longrightarrow>
        amountToWordsWithPaise (toBinary64 (real k / 100))
          = spec_amountToWords (k div 100) (k mod 100))
   \<and> (\<exists>w. amountToWordsWithPaise amount = w @ str '' only'')
   \<and> amountToWordsWithPaise (Fin (2469 / 2))
       = str ''One Thousand Two Hundred and Thirty Four Rupees and Fifty Paise only''
   \<and> amountToWordsWithPaise (toBinary64 (1023456789 / 100))
       = str ''One Crore Two Lakh Thirty Four Thousand Five Hundred and Sixty Seven Rupees and Eighty Nine Paise only''"
  using amount_words_general [of r] amount_words_two_decimals [of k]
    words_ends_only [of amount] words_example_1234_50 words_example_crore
  by blast

theorem amount_words_wording_witness:
  "(\<exists>p. p \<le> 100 \<and> amountPaise (Fin (5 / 4)) = Fin (real p)
       \<and> amountToWordsWithPaise (Fin (5 / 4)) = spec_amountToWords 1 p)
   \<and> amountToWordsWithPaise (toBinary64 (123450 / 100)) = spec_amountToWords 1234 50"
  using amount_words_wording [of "5 / 4" 123450] binary64_1_25 by simp

text \<open>
  The amount -0.50, which the call site passes when the deductions exceed the
  collection by half a rupee, and the amount 1000000000 above the ceiling.
\<close>

theorem amount_words_wording_counterexample:
  "amountToWordsWithPaise (Fin (- 1 / 2))
     = str ''Crore  Lakh  Thousand undefined Hundred and Rupees and Fifty Paise only''
   \<and> amountToWordsWithPaise (Fin 1000000000) = str ''Amount too large Rupees only''"
  using words_example_negative words_example_ceiling by blast

section \<open>Tax: the two halves are rounded on their own\<close>

lemma round_half_close:
  fixes z :: real
  shows "\<bar>of_int \<lfloor>z + 1 / 2\<rfloor> - z\<bar> \<le> 1 / 2"
proof -
  have "of_int \<lfloor>z + 1 / 2\<rfloor> \<le> z + 1 / 2" by (rule of_int_floor_le)
  moreover have "z + 1 / 2 < of_int \<lfloor>z + 1 / 2\<rfloor> + 1" by linarith
  ultimately show ?thesis by linarith
qed

lemma toFixed2_rounds:
  assumes "\<bar>x\<bar> < 10 ^ 21"
  shows "\<exists>y. toFixed2 (Fin x) = Fin y \<and> spec_twoDecimals x y"
proof (cases "x < 0")
  case True
  define k where "k = \<lfloor>(- x) * 100 + 1 / 2\<rfloor>"
  have c: "\<bar>of_int k - (- x) * 100\<bar> \<le> 1 / 2"
    unfolding k_def by (rule round_half_close)
  have t: "toFixed2 (Fin x) = Fin (- (of_int k / 100))"
    using assms True by (simp add: k_def)
  have "- (of_int k / 100) * 100 = (of_int (- k) :: real)" by simp
  then have i: "of_int \<lfloor>- (of_int k / 100) * (100::real)\<rfloor> = - (of_int k / 100) * (100::real)"
    by (simp only: floor_of_int)
  have "\<bar>- (of_int k / 100) - x\<bar> \<le> 1 / 200" using c
    by (intro abs_leI) (simp_all only: abs_le_iff, linarith+)
  then show ?thesis using t i unfolding spec_twoDecimals_def by blast
next
  case False
  define k where "k = \<lfloor>x * 100 + 1 / 2\<rfloor>"
  have c: "\<bar>of_int k - x * 100\<bar> \<le> 1 / 2"
    unfolding k_def by (rule round_half_close)
  have t: "toFixed2 (Fin x) = Fin (of_int k / 100)"
    using assms False by (simp add: k_def)
  have "of_int k / 100 * 100 = (of_int k :: real)" by simp
  then have i: "of_int \<lfloor>of_int k / 100 * (100::real)\<rfloor> = of_int k / 100 * (100::real)"
    by (simp only: floor_of_int)
  have "\<bar>of_int k / 100 - x\<bar> \<le> 1 / 200" using c
    by (intro abs_leI) (simp_all only: abs_le_iff, linarith+)
  then show ?thesis using t i unfolding spec_twoDecimals_def by blast
qed

text \<open>Half of 18 percent as a factor: the binary64 number next to 0.09.\<close>

lemma half_rate_18:
  "f64_div (f64_div (Fin 18) 2) 100 = Fin (3242591731706757 / 36028797018963968)"
  by (simp add: f64_eval)

lemma gst_example:
  "gstAmounts CGST_SGST (Fin 18) (Fin 1000)
     = \<lparr>cgstVal = Fin 90, sgstVal = Fin 90, igstVal = Fin 0, netAmountVal = Fin 1180\<rparr>"
proof -
  have c: "plusToFixed2 (f64_mul (Fin 1000) (Fin (3242591731706757 / 36028797018963968)))
             = Fin 90"
    by (simp add: f64_eval)
  have n: "plusToFixed2 (f64_add (f64_add (Fin 1000) (Fin 90)) (Fin 90)) = Fin 1180"
    by (simp add: f64_eval)
  show ?thesis
    unfolding gstAmounts_def Let_def half_rate_18 c n by simp
qed

lemma binary64_9_04: "toBinary64 (904 / 100) = Fin (1272266894732165 / 140737488355328)"
  by (simp add: f64_eval)

lemma binary64_118_58: "toBinary64 (11858 / 100) = Fin (8344325684587397 / 70368744177664)"
  by (simp add: f64_eval)

lemma gst_example_binary64:
  "gstAmounts CGST_SGST (Fin 18) (Fin (201 / 2))
     = \<lparr>cgstVal = toBinary64 (904 / 100), sgstVal = toBinary64 (904 / 100), igstVal = Fin 0,
         netAmountVal = toBinary64 (11858 / 100)\<rparr>"
proof -
  have m: "f64_mul (Fin (201 / 2)) (Fin (3242591731706757 / 36028797018963968))
             = Fin (5091882328695767 / 562949953421312)"
    by (simp add: f64_eval)
  have c: "plusToFixed2 (Fin (5091882328695767 / 562949953421312))
             = Fin (1272266894732165 / 140737488355328)"
    by (simp add: f64_eval)
  have s: "f64_add (f64_add (Fin (201 / 2)) (Fin (1272266894732165 / 140737488355328)))
             (Fin (1272266894732165 / 140737488355328))
           = Fin (2086081421146849 / 17592186044416)"
    by (simp add: f64_eval)
  have n: "plusToFixed2 (Fin (2086081421146849 / 17592186044416))
             = Fin (8344325684587397 / 70368744177664)"
    by (simp add: f64_eval)
  show ?thesis
    unfolding gstAmounts_def Let_def half_rate_18 m c s n binary64_9_04 binary64_118_58
    by simp
qed

lemma gst_exact_half: "toFixed2 (Fin (201 / 2 * (18 / 2 / 100))) = Fin (905 / 100)"
  by simp

lemma gst_halves:
  "cgstVal (gstAmounts CGST_SGST gstRate taxableAmount)
     = plusToFixed2 (f64_mul taxableAmount (f64_div (f64_div gstRate 2) 100))"
  "sgstVal (gstAmounts CGST_SGST gstRate taxableAmount)
     = plusToFixed2 (f64_mul taxableAmount (f64_div (f64_div gstRate 2) 100))"
  "netAmountVal (gstAmounts CGST_SGST gstRate taxableAmount)
     = plusToFixed2
         (f64_add (f64_add taxableAmount (cgstVal (gstAmounts CGST_SGST gstRate taxableAmount)))
            (sgstVal (gstAmounts CGST_SGST gstRate taxableAmount)))"
  by (simp_all add: gstAmounts_def Let_def)

lemma plusToFixed2_rounds:
  assumes "\<bar>x\<bar> < 10 ^ 21"
  shows "\<exists>y. toFixed2 (Fin x) = Fin y \<and> spec_twoDecimals x y
           \<and> plusToFixed2 (Fin x) = toBinary64 y"
proof -
  obtain y where y: "toFixed2 (Fin x) = Fin y" "spec_twoDecimals x y"
    using toFixed2_rounds [OF assms] by blast
  have "plusToFixed2 (Fin x) = toBinary64 y"
    unfolding plusToFixed2_def y(1) by simp
  then show ?thesis using y by blast
qed

lemma binary64_18_1000: "isBinary64 18" "isBinary64 1000" "isBinary64 (201 / 2)"
  by (simp_all add: isBinary64_def f64_eval)

text \<open>The net amounts of the two examples in words, as the preview prints them.\<close>

lemma tax_example_words:
  "amountToWordsWithPaise (netAmountVal (gstAmounts CGST_SGST (Fin 18) (Fin 1000)))
     = str ''One Thousand One Hundred and Eighty Rupees only''"
  "amountToWordsWithPaise (netAmountVal (gstAmounts CGST_SGST (Fin 18) (Fin (201 / 2))))
     = str ''One Hundred and Eighteen Rupees and Fifty Eight Paise only''"
proof -
  have "amountPaise (Fin 1180) = Fin (real 0)"
    by (simp add: amountPaise_eval f64_eval)
  then have "amountToWordsWithPaise (Fin 1180) = spec_amountToWords 1180 0"
    using amount_words_paise [of 1180 0] by simp
  also have "\<dots> = str ''One Thousand One Hundred and Eighty Rupees only''"
    by (simp add: spec_eval)
  finally show "amountToWordsWithPaise (netAmountVal (gstAmounts CGST_SGST (Fin 18) (Fin 1000)))
     = str ''One Thousand One Hundred and Eighty Rupees only''"
    by (simp add: gst_example)
next
  have "amountToWordsWithPaise (toBinary64 (11858 / 100)) = spec_amountToWords 118 58"
    using amount_words_two_decimals [of 11858] by simp
  also have "\<dots> = str ''One Hundred and Eighteen Rupees and Fifty Eight Paise only''"
    by (simp add: spec_eval)
  finally show
    "amountToWordsWithPaise (netAmountVal (gstAmounts CGST_SGST (Fin 18) (Fin (201 / 2))))
       = str ''One Hundred and Eighteen Rupees and Fifty Eight Paise only''"
    by (simp add: gst_example_binary64)
qed

text \<open>
  C5. In CGST/SGST mode with base b and rate r, binary64 numbers, CGST and SGST are
  each the product \<open>b * ((r / 2) / 100)\<close>, rounded to two decimals on its own, and
  the net amount is the base plus the two rounded halves, rounded again; every
  operation is the binary64 one. The rounding \<open>+x.toFixed(2)\<close> takes the decimal with
  at most two places within half a hundredth of x and reads it as a binary64 number.
  For b = 1000 and r = 18 the values are 90, 90 and 1180. For b = 100.5 and r = 18 the
  binary64 product lies below 9.045, so that each half is 9.04 and the net amount is
  118.58, where the exact product 9.045 would give 9.05.
\<close>

theorem gst_split_rounding:
  "(isBinary64 r \<and> isBinary64 b \<longrightarrow>
      cgstVal (gstAmounts CGST_SGST (Fin r) (Fin b))
        = plusToFixed2 (f64_mul (Fin b) (f64_div (f64_div (Fin r) 2) 100))
      \<and> sgstVal (gstAmounts CGST_SGST (Fin r) (Fin b))
          = plusToFixed2 (f64_mul (Fin b) (f64_div (f64_div (Fin r) 2) 100))
      \<and> netAmountVal (gstAmounts CGST_SGST (Fin r) (Fin b))
          = plusToFixed2
              (f64_add (f64_add (Fin b) (cgstVal (gstAmounts CGST_SGST (Fin r) (Fin b))))
                 (sgstVal (gstAmounts CGST_SGST (Fin r) (Fin b)))))
   \<and> (\<bar>x\<bar> < 10 ^ 21 \<longrightarrow>
        (\<exists>y. toFixed2 (Fin x) = Fin y \<and> spec_twoDecimals x y
           \<and> plusToFixed2 (Fin x) = toBinary64 y))
   \<and> gstAmounts CGST_SGST (Fin 18) (Fin 1000)
       = \<lparr>cgstVal = Fin 90, sgstVal = Fin 90, igstVal = Fin 0, netAmountVal = Fin 1180\<rparr>
   \<and> gstAmounts CGST_SGST (Fin 18) (Fin (201 / 2))
       = \<lparr>cgstVal = toBinary64 (904 / 100), sgstVal = toBinary64 (904 / 100),
           igstVal = Fin 0, netAmountVal = toBinary64 (11858 / 100)\<rparr>
   \<and> toFixed2 (Fin (201 / 2 * (18 / 2 / 100))) = Fin (905 / 100)"
  using gst_halves [of "Fin r" "Fin b"] plusToFixed2_rounds [of x] gst_example
    gst_example_binary64 gst_exact_half
  by blast

theorem gst_split_rounding_witness:
  "cgstVal (gstAmounts CGST_SGST (Fin 18) (Fin 1000))
     = plusToFixed2 (f64_mul (Fin 1000) (f64_div (f64_div (Fin 18) 2) 100))
   \<and> cgstVal (gstAmounts CGST_SGST (Fin 18) (Fin 1000)) = Fin 90
   \<and> (\<exists>y. toFixed2 (Fin (100499 / 1000)) = Fin y \<and> spec_twoDecimals (100499 / 1000) y
         \<and> plusToFixed2 (Fin (100499 / 1000)) = toBinary64 y)"
proof -
  note t = gst_split_rounding [of 18 1000 "100499 / 1000"]
  have x: "\<bar>100499 / 1000 :: real\<bar> < 10 ^ 21" by simp
  have a: "cgstVal (gstAmounts CGST_SGST (Fin 18) (Fin 1000))
     = plusToFixed2 (f64_mul (Fin 1000) (f64_div (f64_div (Fin 18) 2) 100))"
    using t binary64_18_1000(1,2) by blast
  have "gstAmounts CGST_SGST (Fin 18) (Fin 1000)
       = \<lparr>cgstVal = Fin 90, sgstVal = Fin 90, igstVal = Fin 0, netAmountVal = Fin 1180\<rparr>"
    using t by blast
  then have b: "cgstVal (gstAmounts CGST_SGST (Fin 18) (Fin 1000)) = Fin 90" by simp
  have c: "\<exists>y. toFixed2 (Fin (100499 / 1000)) = Fin y \<and> spec_twoDecimals (100499 / 1000) y
         \<and> plusToFixed2 (Fin (100499 / 1000)) = toBinary64 y"
    using t x by blast
  show ?thesis using a b c by blast
qed

section \<open>The invoice calculation\<close>

lemma split_nonneg:
  assumes "0 \<le> a"
  shows "js_floor (js_div (Fin a) 100) = Fin (of_int \<lfloor>a / 100\<rfloor>)"
    and "js_rem (Fin a) 100 = Fin (a - 100 * of_int \<lfloor>a / 100\<rfloor>)"
  using assms by (simp_all add: trunc_nonneg)


lemma netBalance_null:
  assumes "rs (calculateTotalSales num d) = None \<or> paise (calculateTotalSales num d) = None"
  shows "calculateNetBalance num d = \<lparr>rs = None, paise = None, isNegative = False\<rparr>"
  using assms by (simp add: calculateNetBalance_def Let_def)

lemma netBalance_finite:
  assumes s: "calculateTotalSales num d = \<lparr>rs = Some (Fin sr), paise = Some (Fin sp)\<rparr>"
    and e: "calculateTotalExpenses num d = \<lparr>rs = Some (Fin er), paise = Some (Fin ep)\<rparr>"
  shows "\<exists>nr np. calculateNetBalance num d
            = \<lparr>rs = Some (Fin (of_int nr)), paise = Some (Fin np),
                isNegative = (sr * 100 + sp < er * 100 + ep)\<rparr>
          \<and> of_int nr * 100 + np = \<bar>(sr * 100 + sp) - (er * 100 + ep)\<bar>
          \<and> 0 \<le> np \<and> np < 100"
proof -
  define a where "a = \<bar>(sr * 100 + sp) - (er * 100 + ep)\<bar>"
  define nr where "nr = \<lfloor>a / 100\<rfloor>"
  define np where "np = a - 100 * of_int nr"
  have a0: "0 \<le> a" by (simp add: a_def)
  have net: "js_abs (js_sub (Fin (sr * 100 + sp)) (Fin (er * 100 + ep))) = Fin a"
    by (simp add: js_sub_def a_def)
  have neg: "js_lt (js_sub (Fin (sr * 100 + sp)) (Fin (er * 100 + ep))) (Fin 0)
               = (sr * 100 + sp < er * 100 + ep)"
    by (auto simp: js_sub_def)
  have "calculateNetBalance num d
          = \<lparr>rs = Some (Fin (of_int nr)), paise = Some (Fin np),
              isNegative = (sr * 100 + sp < er * 100 + ep)\<rparr>"
    unfolding calculateNetBalance_def Let_def s e
    by (simp add: toNumber_def net neg trunc_nonneg a0 nr_def np_def
          del: js_abs.simps js_lt.simps)
  moreover have "of_int nr * 100 + np = a" by (simp add: np_def)
  moreover have "0 \<le> np \<and> np < 100"
  proof -
    have "of_int nr \<le> a / 100" unfolding nr_def by (rule of_int_floor_le)
    moreover have "a / 100 < of_int nr + 1" unfolding nr_def by linarith
    ultimately show ?thesis unfolding np_def by (simp add: field_simps)
  qed
  ultimately show ?thesis unfolding a_def by blast
qed

lemmas read_eval = readParseFloat_def readMarathi_def orText0_def orZero_def truthy_def
  parseMarathiNumber_def parseFloat_def trim_def isWhiteSpace_def marathiToEnglish_map m2e_char
  isMarathiDigit_def isAsciiDigit_def digitsValue_def exponentPart_def pow10_def isNaN_def
  str_def Let_def

lemma read_unset:
  "readParseFloat None = Fin 0" "readMarathi None = Fin 0"
  "readParseFloat (Some []) = Fin 0" "readMarathi (Some []) = Fin 0"
  by (simp_all add: read_eval)

lemma read_5: "readParseFloat (Some (str ''5'')) = Fin 5" "readMarathi (Some (str ''5'')) = Fin 5"
  by (simp_all add: read_eval)

lemma read_10: "readParseFloat (Some (str ''10'')) = Fin 10" "readMarathi (Some (str ''10'')) = Fin 10"
  by (simp_all add: read_eval)

lemma read_70: "readParseFloat (Some (str ''70'')) = Fin 70" "readMarathi (Some (str ''70'')) = Fin 70"
  by (simp_all add: read_eval)


lemma upt8: "[0..<8] = [0, 1, 2, 3, 4, 5, 6, 7]"
  by (simp add: upt_rec)

lemma upt5: "[0..<5] = [0, 1, 2, 3, 4]"
  by (simp add: upt_rec)

lemma upt13: "[0..<13] = [0, 1, 2, 3, 4, 5, 6, 7, 8, 9, 10, 11, 12]"
  by (simp add: upt_rec)

lemma read_0001: "readParseFloat (Some (str ''0.001'')) = Fin (1 / 1000)"
  "readMarathi (Some (str ''0.001'')) = Fin (1 / 1000)"
  by (simp_all add: read_eval)

lemma read_1: "readParseFloat (Some (str ''1'')) = Fin 1" "readMarathi (Some (str ''1'')) = Fin 1"
  by (simp_all add: read_eval)

lemmas calc_eval = calculateRowTotal_def rowQuantity_def calculateTotalSales_def
  salesTotalPaise_def addRow_def calculateTotalExpenses_def expensesTotalPaise_def addEntry_def
  calculateNetBalance_def toNumber_def js_gt_def js_sub_def trunc_def upt8 upt5 upt13 Let_def

lemma empty_invoice:
  assumes "num None = Fin 0"
  shows "calculateTotalSales num Map.empty = \<lparr>rs = None, paise = None\<rparr>"
    and "calculateTotalExpenses num Map.empty = \<lparr>rs = Some (Fin 0), paise = Some (Fin 0)\<rparr>"
  using assms by (simp_all add: calc_eval)

lemma example_invoice:
  assumes "num None = Fin 0" "num (Some (str ''5'')) = Fin 5" "num (Some (str ''10'')) = Fin 10"
    "num (Some (str ''70'')) = Fin 70"
  shows "calculateRowTotal num exampleInvoice 0 = \<lparr>rs = Some (Fin 50), paise = Some (Fin 0)\<rparr>"
    and "calculateTotalSales num exampleInvoice = \<lparr>rs = Some (Fin 50), paise = Some (Fin 0)\<rparr>"
    and "calculateTotalExpenses num exampleInvoice = \<lparr>rs = Some (Fin 70), paise = Some (Fin 0)\<rparr>"
    and "calculateNetBalance num exampleInvoice
           = \<lparr>rs = Some (Fin 20), paise = Some (Fin 0), isNegative = True\<rparr>"
  using assms by (simp_all add: calc_eval exampleInvoice_def)

lemma example_zero_row:
  assumes "num None = Fin 0" "num (Some (str ''0.001'')) = Fin (1 / 1000)"
    "num (Some (str ''1'')) = Fin 1"
  shows "calculateRowTotal num exampleZeroRow 0 = \<lparr>rs = Some (Fin 0), paise = Some (Fin 0)\<rparr>"
    and "calculateTotalSales num exampleZeroRow = \<lparr>rs = None, paise = None\<rparr>"
  using assms by (simp_all add: calc_eval exampleZeroRow_def)


lemma rowTotal_null:
  assumes "rowQuantity num d i = Fin 0 \<or> num (d (Row_price i)) = Fin 0"
  shows "calculateRowTotal num d i = \<lparr>rs = None, paise = None\<rparr>"
  using assms by (auto simp: calculateRowTotal_def Let_def)

lemma rowQuantity_unset:
  assumes "num None = Fin 0" "d (Row_item i) = None" "d (Row_piece i) = None"
  shows "rowQuantity num d i = Fin 0"
  using assms by (simp add: rowQuantity_def js_gt_def)

lemma totalSales_null:
  assumes "salesTotalPaise num d = Fin 0"
  shows "calculateTotalSales num d = \<lparr>rs = None, paise = None\<rparr>"
  using assms by (simp add: calculateTotalSales_def)

text \<open>
  C4. \<open>calculateRowTotal\<close> gives the blank amount (both components null) whenever
  the quantity or the unit price is zero, in particular when the price field or both
  quantity fields are unset, and 50 rupees 0 paise for 5 pieces at 10.
  \<open>calculateTotalSales\<close> gives the blank amount when no row is filled in and whenever
  the rows sum to exactly zero, as for one row whose total is 0 rupees 0 paise.
  \<open>calculateTotalExpenses\<close> of a form without expenses is 0 rupees 0 paise, not
  blank. This holds with either way of reading the fields.
\<close>

theorem blank_versus_zero:
  "((rowQuantity num d i = Fin 0 \<or> num (d (Row_price i)) = Fin 0) \<longrightarrow>
      calculateRowTotal num d i = \<lparr>rs = None, paise = None\<rparr>)
   \<and> (d (Row_price i) = None \<longrightarrow>
        calculateRowTotal readParseFloat d i = \<lparr>rs = None, paise = None\<rparr>
        \<and> calculateRowTotal readMarathi d i = \<lparr>rs = None, paise = None\<rparr>)
   \<and> (d (Row_item i) = None \<and> d (Row_piece i) = None \<longrightarrow>
        calculateRowTotal readParseFloat d i = \<lparr>rs = None, paise = None\<rparr>
        \<and> calculateRowTotal readMarathi d i = \<lparr>rs = None, paise = None\<rparr>)
   \<and> calculateRowTotal readParseFloat exampleInvoice 0
       = \<lparr>rs = Some (Fin 50), paise = Some (Fin 0)\<rparr>
   \<and> calculateRowTotal readMarathi exampleInvoice 0
       = \<lparr>rs = Some (Fin 50), paise = Some (Fin 0)\<rparr>
   \<and> calculateTotalSales readParseFloat Map.empty = \<lparr>rs = None, paise = None\<rparr>
   \<and> calculateTotalSales readMarathi Map.empty = \<lparr>rs = None, paise = None\<rparr>
   \<and> (salesTotalPaise num d = Fin 0 \<longrightarrow>
        calculateTotalSales num d = \<lparr>rs = None, paise = None\<rparr>)
   \<and> calculateRowTotal readParseFloat exampleZeroRow 0
       = \<lparr>rs = Some (Fin 0), paise = Some (Fin 0)\<rparr>
   \<and> calculateTotalSales readParseFloat exampleZeroRow = \<lparr>rs = None, paise = None\<rparr>
   \<and> calculateTotalSales readMarathi exampleZeroRow = \<lparr>rs = None, paise = None\<rparr>
   \<and> calculateTotalExpenses readParseFloat Map.empty
       = \<lparr>rs = Some (Fin 0), paise = Some (Fin 0)\<rparr>
   \<and> calculateTotalExpenses readMarathi Map.empty
       = \<lparr>rs = Some (Fin 0), paise = Some (Fin 0)\<rparr>"
proof -
  have price: "d (Row_price i) = None \<Longrightarrow>
        calculateRowTotal readParseFloat d i = \<lparr>rs = None, paise = None\<rparr>
        \<and> calculateRowTotal readMarathi d i = \<lparr>rs = None, paise = None\<rparr>"
    by (simp add: rowTotal_null read_unset)
  have quantity: "d (Row_item i) = None \<and> d (Row_piece i) = None \<Longrightarrow>
        calculateRowTotal readParseFloat d i = \<lparr>rs = None, paise = None\<rparr>
        \<and> calculateRowTotal readMarathi d i = \<lparr>rs = None, paise = None\<rparr>"
    by (simp add: rowTotal_null rowQuantity_unset read_unset)
  show ?thesis
    using rowTotal_null [of num d i] price quantity totalSales_null [of num d]
      example_invoice(1) [of readParseFloat, OF read_unset(1) read_5(1) read_10(1) read_70(1)]
      example_invoice(1) [of readMarathi, OF read_unset(2) read_5(2) read_10(2) read_70(2)]
      empty_invoice [of readParseFloat, OF read_unset(1)]
      empty_invoice [of readMarathi, OF read_unset(2)]
      example_zero_row [of readParseFloat, OF read_unset(1) read_0001(1) read_1(1)]
      example_zero_row(2) [of readMarathi, OF read_unset(2) read_0001(2) read_1(2)]
    by blast
qed

theorem blank_versus_zero_witness:
  "rowQuantity readMarathi exampleInvoice 7 = Fin 0
   \<and> calculateRowTotal readMarathi exampleInvoice 7 = \<lparr>rs = None, paise = None\<rparr>
   \<and> salesTotalPaise readParseFloat Map.empty = Fin 0
   \<and> calculateTotalSales readParseFloat Map.empty = \<lparr>rs = None, paise = None\<rparr>"
  using blank_versus_zero [of readMarathi exampleInvoice 7]
    blank_versus_zero [of readParseFloat Map.empty 0]
  by (simp add: rowQuantity_def exampleInvoice_def read_unset js_gt_def salesTotalPaise_def
      addRow_def calculateRowTotal_def upt13)

text \<open>
  C6. \<open>calculateNetBalance\<close> is blank when the total sales are blank. When the total
  sales and the total expenses are finite amounts, its amount is the absolute value of
  sales minus expenses, both taken in paise, split into whole rupees and a paise
  remainder from 0 up to 100, and \<open>isNegative\<close> holds if and only if the sales are
  less than the expenses. Sales of 50 rupees against expenses of 70 rupees give 20
  rupees 0 paise with \<open>isNegative\<close> true.
\<close>

theorem net_balance_sign:
  "((rs (calculateTotalSales num d) = None \<or> paise (calculateTotalSales num d) = None) \<longrightarrow>
      calculateNetBalance num d = \<lparr>rs = None, paise = None, isNegative = False\<rparr>)
   \<and> (calculateTotalSales num d = \<lparr>rs = Some (Fin sr), paise = Some (Fin sp)\<rparr>
        \<and> calculateTotalExpenses num d = \<lparr>rs = Some (Fin er), paise = Some (Fin ep)\<rparr> \<longrightarrow>
        (\<exists>nr np. calculateNetBalance num d
            = \<lparr>rs = Some (Fin (of_int nr)), paise = Some (Fin np),
                isNegative = (sr * 100 + sp < er * 100 + ep)\<rparr>
          \<and> of_int nr * 100 + np = \<bar>(sr * 100 + sp) - (er * 100 + ep)\<bar>
          \<and> 0 \<le> np \<and> np < 100))
   \<and> calculateTotalSales readParseFloat exampleInvoice
       = \<lparr>rs = Some (Fin 50), paise = Some (Fin 0)\<rparr>
   \<and> calculateTotalExpenses readParseFloat exampleInvoice
       = \<lparr>rs = Some (Fin 70), paise = Some (Fin 0)\<rparr>
   \<and> calculateNetBalance readParseFloat exampleInvoice
       = \<lparr>rs = Some (Fin 20), paise = Some (Fin 0), isNegative = True\<rparr>
   \<and> calculateNetBalance readMarathi exampleInvoice
       = \<lparr>rs = Some (Fin 20), paise = Some (Fin 0), isNegative = True\<rparr>"
  using netBalance_null [of num d] netBalance_finite [of num d sr sp er ep]
    example_invoice(2-4) [of readParseFloat, OF read_unset(1) read_5(1) read_10(1) read_70(1)]
    example_invoice(4) [of readMarathi, OF read_unset(2) read_5(2) read_10(2) read_70(2)]
  by blast

theorem net_balance_sign_witness:
  "isNegative (calculateNetBalance readParseFloat exampleInvoice)
   \<and> calculateNetBalance readMarathi Map.empty = \<lparr>rs = None, paise = None, isNegative = False\<rparr>"
  using net_balance_sign [of readParseFloat exampleInvoice 50 0 70 0]
    net_balance_sign [of readMarathi Map.empty]
    empty_invoice(1) [of readMarathi, OF read_unset(2)]
  by auto

section \<open>The paise component\<close>




subsection \<open>Expenses in whole numbers\<close>





subsection \<open>Rows that are not negative\<close>








subsection \<open>Examples\<close>





text \<open>
  In binary64 a rupee field of 4.35 gives 434.99999999999994 paise, which is no whole
  number and leaves 34.99999999999994 paise: the exact sums of the calculation
  functions are those of binary64 on whole numbers, not on such decimals.
\<close>

lemma binary64_4_35:
  "toBinary64 (435 / 100) = Fin (2448832297382707 / 562949953421312)"
  "f64_mul (Fin (2448832297382707 / 562949953421312)) (Fin 100)
     = Fin (7652600929320959 / 17592186044416)"
  "js_rem (Fin (7652600929320959 / 17592186044416)) 100
     = Fin (615726511554559 / 17592186044416)"
  by (simp_all add: f64_eval trunc_def)








section \<open>The transliteration engine\<close>

lemma unavailable_unchanged:
  assumes "\<not> windowDefined e \<or> aksharamukhaInstance e = None"
  shows "transliterateToMarathiAsync e text = text"
  using assms by (auto simp: transliterateToMarathiAsync_def)

lemma dictionary_lower:
  assumes "map_of CORRECTION_DICTIONARY (toLowerCase word) = Some v"
  shows "transliterateWord word ak = Text v"
  using assms by (simp add: transliterateWord_def dictionaryAt_def)

lemmas dict_eval = CORRECTION_DICTIONARY_def toLowerCase_def str_def

lemma dictionary_keys:
  assumes "map_of CORRECTION_DICTIONARY word = Some v"
  shows "(word, v) \<in> set CORRECTION_DICTIONARY"
  using assms by (rule map_of_SomeD)

lemma dictionary_key_lower:
  assumes "(word, v) \<in> set CORRECTION_DICTIONARY"
  shows "map_of CORRECTION_DICTIONARY (toLowerCase word) = Some v"
  using assms by (auto simp: dict_eval)

lemma dictionary_word:
  assumes "map_of CORRECTION_DICTIONARY word = Some v"
  shows "transliterateWord word ak = Text v"
  using assms by (intro dictionary_lower dictionary_key_lower dictionary_keys)

lemma dictionary_key_plain:
  assumes "(word, v) \<in> set CORRECTION_DICTIONARY"
  shows "word \<noteq> [] \<and> \<not> hasMarathi word \<and> splitWords [] word = [word] \<and> trim word = word
         \<and> \<not> list_all isWhiteSpace word \<and> \<not> list_all isPunctuation word
         \<and> \<not> list_all isAsciiDigit word"
  using assms
  by (auto simp: dict_eval hasMarathi_def isDevanagari_def isWhiteSpace_def isPunctuation_def
      trim_def isAsciiDigit_def)

lemma dictionary_after_phrase:
  assumes w: "windowDefined e" and i: "aksharamukhaInstance e = Some ak"
    and k: "map_of CORRECTION_DICTIONARY word = Some v"
    and p: "ak IAST True (toLowerCase word) = None"
  shows "transliterateToMarathiAsync e word = v"
proof -
  have plain: "word \<noteq> [] \<and> \<not> hasMarathi word \<and> splitWords [] word = [word] \<and> trim word = word
         \<and> \<not> list_all isWhiteSpace word \<and> \<not> list_all isPunctuation word
         \<and> \<not> list_all isAsciiDigit word"
    using k by (intro dictionary_key_plain dictionary_keys)
  have "transliteratePiece ak word = Text v"
    using plain dictionary_word [OF k] by (simp add: transliteratePiece_def)
  then show ?thesis
    using w i p plain
    by (simp add: transliterateToMarathiAsync_def preprocessTextForTransliteration_def
        printValue_def)
qed

lemma mumbai_key:
  "map_of CORRECTION_DICTIONARY (str ''Mumbai'') = Some [0x92E, 0x941, 0x902, 0x92C, 0x908]"
  by (simp add: dict_eval)

lemma mumbai_unavailable:
  "transliterateToMarathiAsync backendUnavailable (str ''Mumbai'') = str ''Mumbai''"
  "transliterateToMarathiAsync serverSide (str ''Mumbai'') = str ''Mumbai''"
  by (simp_all add: unavailable_unchanged backendUnavailable_def serverSide_def)

lemma mumbai_phrase_first:
  "transliterateToMarathiAsync backendAvailable (str ''Mumbai'')
     = [0x92E, 0x941, 0x92E, 0x94D, 0x92C, 0x908]"
  by (simp add: transliterateToMarathiAsync_def backendAvailable_def exampleBackend_def
      hasMarathi_def isDevanagari_def toLowerCase_def str_def
      preprocessTextForTransliteration_def)

text \<open>
  C2 (amended). \<open>transliterateWord\<close> looks the word up in the correction dictionary
  before anything else: for every word that is a key of the dictionary, or whose
  lowercase form is one, it returns the dictionary value whatever the backend is, also
  when there is none, so "Mumbai" gives the dictionary value. The engine
  \<open>transliterateToMarathiAsync\<close> reaches \<open>transliterateWord\<close> in a browser with a
  backend loaded, after the whole text has been offered to the backend: when that call
  is rejected, a dictionary word is given its dictionary value. Without a browser or
  without a backend the engine returns its text unchanged.
\<close>

theorem dictionary_first:
  "(map_of CORRECTION_DICTIONARY word = Some v \<longrightarrow> transliterateWord word ak = Text v)
   \<and> (map_of CORRECTION_DICTIONARY (toLowerCase word) = Some v \<longrightarrow>
        transliterateWord word ak = Text v)
   \<and> transliterateWord (str ''Mumbai'') ak = Text [0x92E, 0x941, 0x902, 0x92C, 0x908]
   \<and> (windowDefined e \<and> aksharamukhaInstance e = Some b
        \<and> map_of CORRECTION_DICTIONARY word = Some v \<and> b IAST True (toLowerCase word) = None \<longrightarrow>
        transliterateToMarathiAsync e word = v)
   \<and> (\<not> windowDefined e \<or> aksharamukhaInstance e = None \<longrightarrow>
        transliterateToMarathiAsync e text = text)"
  using dictionary_word [of word v ak] dictionary_lower [of word v ak]
    dictionary_word [OF mumbai_key, of ak] dictionary_after_phrase [of e b word v]
    unavailable_unchanged [of e "text"]
  by blast

theorem dictionary_first_witness:
  "transliterateWord (str ''DELHI'') None = Text [0x926, 0x93F, 0x932, 0x94D, 0x932, 0x940]
   \<and> transliterateToMarathiAsync
         \<lparr>windowDefined = True, aksharamukhaInstance = Some (\<lambda>fmt nativize text. None),
          memberText = (\<lambda>k. [])\<rparr> (str ''Mumbai'')
       = [0x92E, 0x941, 0x902, 0x92C, 0x908]
   \<and> transliterateToMarathiAsync serverSide (str ''Mumbai'') = str ''Mumbai''"
  using dictionary_first [of "str ''DELHI''" "[0x926, 0x93F, 0x932, 0x94D, 0x932, 0x940]" None
      serverSide "\<lambda>fmt nativize text. None" "str ''Mumbai''"]
    dictionary_first [of "str ''Mumbai''" "[0x92E, 0x941, 0x902, 0x92C, 0x908]" None
      "\<lparr>windowDefined = True, aksharamukhaInstance = Some (\<lambda>fmt nativize text. None),
          memberText = (\<lambda>k. [])\<rparr>" "\<lambda>fmt nativize text. None" "[]"]
  by (simp add: dict_eval serverSide_def)

theorem dictionary_first_counterexample:
  "map_of CORRECTION_DICTIONARY (str ''Mumbai'') = Some [0x92E, 0x941, 0x902, 0x92C, 0x908]
   \<and> transliterateToMarathiAsync backendUnavailable (str ''Mumbai'') = str ''Mumbai''
   \<and> transliterateToMarathiAsync backendUnavailable (str ''Mumbai'')
       \<noteq> [0x92E, 0x941, 0x902, 0x92C, 0x908]
   \<and> transliterateToMarathiAsync serverSide (str ''Mumbai'') = str ''Mumbai''
   \<and> transliterateToMarathiAsync backendAvailable (str ''Mumbai'')
       = [0x92E, 0x941, 0x92E, 0x94D, 0x92C, 0x908]
   \<and> transliterateToMarathiAsync backendAvailable (str ''Mumbai'')
       \<noteq> [0x92E, 0x941, 0x902, 0x92C, 0x908]"
  by (simp add: mumbai_key mumbai_unavailable mumbai_phrase_first) (simp add: str_def)

section \<open>The phonetic transducer\<close>

lemma step_devanagari:
  assumes "lowerLetter (lowerText ! i)"
  shows "devanagariText (fst (phoneticStep inp lowerText i))"
  using assms
  by (auto simp: phoneticStep_def Let_def lowerLetter_def str_def devanagariText_def
      isDevanagari_def)

lemma loop_devanagari:
  assumes "list_all lowerLetter lowerText"
  shows "list_all isDevanagari (phoneticLoop inp lowerText i)"
  using assms
proof (induction inp lowerText i rule: phoneticLoop.induct)
  case (1 inp lowerText i)
  show ?case
  proof (cases "i < length lowerText")
    case True
    then have "lowerLetter (lowerText ! i)" using "1.prems" by (simp add: list_all_length)
    then have "list_all isDevanagari (fst (phoneticStep inp lowerText i))"
      using step_devanagari [of lowerText i inp] by (simp add: devanagariText_def)
    moreover have "list_all isDevanagari
        (phoneticLoop inp lowerText (if snd (phoneticStep inp lowerText i) then i + 2 else i + 1))"
      using "1.IH" [OF True "1.prems"] .
    ultimately show ?thesis
      using True by (subst phoneticLoop.simps) simp
  next
    case False
    then show ?thesis by (subst phoneticLoop.simps) simp
  qed
qed

lemma loop_nonempty:
  assumes "list_all lowerLetter lowerText" "lowerText \<noteq> []"
  shows "phoneticLoop inp lowerText 0 \<noteq> []"
proof -
  have "lowerLetter (lowerText ! 0)" using assms by (simp add: list_all_length)
  then have "fst (phoneticStep inp lowerText 0) \<noteq> []"
    using step_devanagari [of lowerText 0 inp] by (simp add: devanagariText_def)
  then show ?thesis using assms(2) by (subst phoneticLoop.simps) simp
qed

lemma lower_letters:
  assumes "list_all phoneticLetter inp"
  shows "list_all lowerLetter (toLowerCase inp)" and "\<not> hasMarathi inp"
  using assms
  by (induction inp)
    (auto simp: toLowerCase_def phoneticLetter_def lowerLetter_def str_def hasMarathi_def
      isDevanagari_def)

lemma phonetic_devanagari:
  assumes "inp \<noteq> []" "list_all phoneticLetter inp"
  shows "devanagariText (phoneticTransliterate inp)"
proof -
  have l: "list_all lowerLetter (toLowerCase inp)" and m: "\<not> hasMarathi inp"
    using lower_letters [OF assms(2)] by simp_all
  have n: "toLowerCase inp \<noteq> []" using assms(1) by (simp add: toLowerCase_def)
  show ?thesis
    using assms(1) m loop_devanagari [OF l] loop_nonempty [OF l n]
    by (simp add: phoneticTransliterate_def devanagariText_def)
qed

lemmas phonetic_eval = phoneticTransliterate_def hasMarathi_def isDevanagari_def toLowerCase_def
  phoneticLoop.simps phoneticStep_def charAt_def isWhiteSpace_def isPunctuation_def str_def
  Let_def

lemma phonetic_delhi:
  "phoneticTransliterate (str ''Delhi'') = [0x926, 0x90F, 0x932, 0x939, 0x907]"
  by (simp add: phonetic_eval)

lemma phonetic_unknown: "phoneticTransliterate (str ''zq'') = str ''zq''"
  by (simp add: phonetic_eval)

lemma delhi_unavailable:
  "transliterateToMarathiAsync backendUnavailable (str ''Delhi'') = str ''Delhi''"
  "transliterateToMarathiAsync serverSide (str ''Delhi'') = str ''Delhi''"
  by (simp_all add: unavailable_unchanged backendUnavailable_def serverSide_def)

text \<open>
  C1 (amended). When the backend is unavailable, because \<open>window\<close> is undefined or the
  backend did not load, \<open>transliterateToMarathiAsync\<close> returns its text unchanged: the
  engine does not call the phonetic transducer. \<open>phoneticTransliterate\<close> on its own
  maps every non-empty word made of the letters it has a rule for (all of A to Z but F,
  Q, X and Z, in either case) to a non-empty text of Devanagari code points only, and
  "Delhi" to the five letters da, e, la, ha, i.
\<close>

theorem fallback_unavailable:
  "((\<not> windowDefined e \<or> aksharamukhaInstance e = None) \<longrightarrow>
      transliterateToMarathiAsync e inp = inp)
   \<and> (inp \<noteq> [] \<and> list_all phoneticLetter inp \<longrightarrow>
        phoneticTransliterate inp \<noteq> [] \<and> list_all isDevanagari (phoneticTransliterate inp))
   \<and> phoneticTransliterate (str ''Delhi'') = [0x926, 0x90F, 0x932, 0x939, 0x907]
   \<and> list_all isDevanagari [0x926, 0x90F, 0x932, 0x939, 0x907]"
proof -
  have "list_all isDevanagari [0x926, 0x90F, 0x932, 0x939, 0x907]"
    by (simp add: isDevanagari_def)
  then show ?thesis
    using unavailable_unchanged [of e inp] phonetic_devanagari [of inp] phonetic_delhi
    unfolding devanagariText_def by blast
qed

theorem fallback_unavailable_witness:
  "transliterateToMarathiAsync serverSide (str ''Delhi'') = str ''Delhi''
   \<and> phoneticTransliterate (str ''Mumbai'') \<noteq> []
   \<and> list_all isDevanagari (phoneticTransliterate (str ''Mumbai''))"
  using fallback_unavailable [of serverSide "str ''Delhi''"]
    fallback_unavailable [of serverSide "str ''Mumbai''"]
  by (simp add: serverSide_def phoneticLetter_def str_def)

theorem fallback_unavailable_counterexample:
  "aksharamukhaInstance backendUnavailable = None
   \<and> transliterateToMarathiAsync backendUnavailable (str ''Delhi'') = str ''Delhi''
   \<and> \<not> hasMarathi (transliterateToMarathiAsync backendUnavailable (str ''Delhi''))
   \<and> \<not> windowDefined serverSide
   \<and> transliterateToMarathiAsync serverSide (str ''Delhi'') = str ''Delhi''
   \<and> phoneticTransliterate (str ''zq'') = str ''zq''"
  by (simp add: delhi_unavailable phonetic_unknown)
    (simp add: backendUnavailable_def serverSide_def hasMarathi_def isDevanagari_def str_def)

end
